theory Spec2Isabelle
  imports Main
begin

section \<open>Strings, numbers and regular-expression tests of \<^verbatim>\<open>src/index.js\<close>\<close>

text \<open>
  A JavaScript string is modelled as a \<^typ>\<open>string\<close>: one \<^typ>\<open>char\<close> per code unit, for
  code units below 256. Only the ASCII letters change under \<^verbatim>\<open>toLowerCase\<close> and under the
  \<^verbatim>\<open>i\<close> flag of a regular expression in that range as far as the tests of this program
  (all on ASCII patterns) can see.
\<close>

definition toLowerChar :: "char \<Rightarrow> char" where
  "toLowerChar c =
     (let n = (of_char c :: nat) in if 65 \<le> n \<and> n \<le> 90 then char_of (n + 32) else c)"

definition toLowerCase :: "string \<Rightarrow> string" where
  "toLowerCase s = map toLowerChar s"

definition startsWith :: "string \<Rightarrow> string \<Rightarrow> bool" where
  "startsWith s p = (take (length p) s = p)"

definition endsWith :: "string \<Rightarrow> string \<Rightarrow> bool" where
  "endsWith s p = (length p \<le> length s \<and> drop (length s - length p) s = p)"

fun includes_str :: "string \<Rightarrow> string \<Rightarrow> bool" where
  "includes_str [] p = (p = [])"
| "includes_str (c # cs) p = (startsWith (c # cs) p \<or> includes_str cs p)"

definition isDigit :: "char \<Rightarrow> bool" where
  "isDigit c = (let n = (of_char c :: nat) in 48 \<le> n \<and> n \<le> 57)"

text \<open>\<^verbatim>\<open>\w\<close> or \<^verbatim>\<open>-\<close>: the class \<^verbatim>\<open>[\w-]\<close> of the link pattern.\<close>

definition isWordOrHyphen :: "char \<Rightarrow> bool" where
  "isWordOrHyphen c =
     (let n = (of_char c :: nat) in
        (48 \<le> n \<and> n \<le> 57) \<or> (65 \<le> n \<and> n \<le> 90) \<or> (97 \<le> n \<and> n \<le> 122) \<or> n = 95 \<or> n = 45)"

text \<open>\<^verbatim>\<open>\s\<close> on code units below 256: tab, line feed, vertical tab, form feed, carriage
  return, space and the no-break space.\<close>

definition isSpace :: "char \<Rightarrow> bool" where
  "isSpace c = (let n = (of_char c :: nat) in (9 \<le> n \<and> n \<le> 13) \<or> n = 32 \<or> n = 160)"

definition digitChar :: "nat \<Rightarrow> char" where
  "digitChar d =
     (if d = 0 then CHR ''0'' else if d = 1 then CHR ''1'' else if d = 2 then CHR ''2''
      else if d = 3 then CHR ''3'' else if d = 4 then CHR ''4'' else if d = 5 then CHR ''5''
      else if d = 6 then CHR ''6'' else if d = 7 then CHR ''7'' else if d = 8 then CHR ''8''
      else CHR ''9'')"

text \<open>The decimal text of a number inside a template literal (\<^verbatim>\<open>`${n}`\<close>).\<close>

fun showNat :: "nat \<Rightarrow> string" where
  "showNat n = (if n < 10 then [digitChar n] else showNat (n div 10) @ [digitChar (n mod 10)])"

declare showNat.simps [simp del]

definition showInt :: "int \<Rightarrow> string" where
  "showInt i = (if i < 0 then CHR ''-'' # showNat (nat (- i)) else showNat (nat i))"

text \<open>\<^verbatim>\<open>/\.part$/i.test(name)\<close>\<close>

definition isPartial :: "string \<Rightarrow> bool" where
  "isPartial name = endsWith (toLowerCase name) ''.part''"

text \<open>\<^verbatim>\<open>/\.(mp4|mkv|webm|mov|m4v)$/i.test(name)\<close>\<close>

definition isMediaContainer :: "string \<Rightarrow> bool" where
  "isMediaContainer name =
     (let l = toLowerCase name in
        endsWith l ''.mp4'' \<or> endsWith l ''.mkv'' \<or> endsWith l ''.webm'' \<or>
        endsWith l ''.mov'' \<or> endsWith l ''.m4v'')"

text \<open>\<^verbatim>\<open>/\.mp4$/i.test(name)\<close>\<close>

definition isMp4 :: "string \<Rightarrow> bool" where
  "isMp4 name = endsWith (toLowerCase name) ''.mp4''"

text \<open>
  \<^verbatim>\<open>/\.f\d+\./i.test(name)\<close>: somewhere in the name a dot, \<^verbatim>\<open>f\<close> or \<^verbatim>\<open>F\<close>, one or more
  digits and a dot. The greedy \<^verbatim>\<open>\d+\<close> needs no backtracking: a shorter run of digits is
  followed by a digit, not by a dot.
\<close>

definition formatTagHere :: "string \<Rightarrow> bool" where
  "formatTagHere s =
     (case s of
        c1 # c2 # r \<Rightarrow>
          c1 = CHR ''.'' \<and> toLowerChar c2 = CHR ''f'' \<and> takeWhile isDigit r \<noteq> [] \<and>
          (case dropWhile isDigit r of [] \<Rightarrow> False | d # _ \<Rightarrow> d = CHR ''.'')
      | _ \<Rightarrow> False)"

fun isIntermediate :: "string \<Rightarrow> bool" where
  "isIntermediate [] = False"
| "isIntermediate (c # cs) = (formatTagHere (c # cs) \<or> isIntermediate cs)"

section \<open>Paths and the file system\<close>

text \<open>
  A path is a directory and the name of an entry in it: \<^verbatim>\<open>path.join(dir, name)\<close> builds it,
  \<^verbatim>\<open>path.dirname\<close> and \<^verbatim>\<open>path.basename\<close> take it apart. Every path of the program is built
  that way from a name without a separator.
\<close>

datatype path = Path (dirname: string) (basename: string)

definition pathJoin :: "string \<Rightarrow> string \<Rightarrow> path" where
  "pathJoin dir name = Path dir name"

text \<open>The path as text, where it goes into a template literal or an option of a tool.\<close>

definition pathString :: "path \<Rightarrow> string" where
  "pathString p = dirname p @ ''/'' @ basename p"

text \<open>\<^verbatim>\<open>`${p}${suffix}`\<close> for a suffix without a separator.\<close>

definition pathAppend :: "path \<Rightarrow> string \<Rightarrow> path" where
  "pathAppend p suffix = Path (dirname p) (basename p @ suffix)"

text \<open>
  \<^verbatim>\<open>path.extname\<close>: from the last dot of the name to its end; empty when the name has no dot,
  when its only dot is its first character, and for \<^verbatim>\<open>..\<close>.
\<close>

definition extname :: "path \<Rightarrow> string" where
  "extname p =
     (let n = basename p; e = CHR ''.'' # rev (takeWhile (\<lambda>c. c \<noteq> CHR ''.'') (rev n)) in
        if CHR ''.'' \<notin> set n \<or> length e = length n \<or> n = ''..'' then [] else e)"

text \<open>\<^verbatim>\<open>path.basename(p, ext)\<close>\<close>

definition basenameExt :: "path \<Rightarrow> string \<Rightarrow> string" where
  "basenameExt p e =
     (let n = basename p in
        if e \<noteq> [] \<and> endsWith n e \<and> n \<noteq> e then take (length n - length e) n else n)"

text \<open>
  A directory is the list of its entries in the order \<^verbatim>\<open>fs.readdirSync\<close> lists them, each
  with what \<^verbatim>\<open>fs.statSync\<close> reports for it: the modification time (only its order is
  used) and the size in bytes. The file system maps a directory to its entries.
\<close>

record entry =
  name :: string
  mtimeMs :: int
  fsize :: nat

type_synonym filesystem = "string \<Rightarrow> entry list"

definition readdirSync :: "string \<Rightarrow> filesystem \<Rightarrow> entry list" where
  "readdirSync dir fs = fs dir"

definition existsSync :: "path \<Rightarrow> filesystem \<Rightarrow> bool" where
  "existsSync p fs = (basename p \<in> name ` set (fs (dirname p)))"

definition unlinkSync :: "path \<Rightarrow> filesystem \<Rightarrow> filesystem" where
  "unlinkSync p fs = fs (dirname p := filter (\<lambda>e. name e \<noteq> basename p) (fs (dirname p)))"

definition statSync :: "path \<Rightarrow> filesystem \<Rightarrow> entry option" where
  "statSync p fs = List.find (\<lambda>e. name e = basename p) (fs (dirname p))"

text \<open>
  \<^verbatim>\<open>.sort((a, b) => statSync(b).mtimeMs - statSync(a).mtimeMs)\<close>: newest first, entries
  of equal time in their listed order.
\<close>

definition sortNewestFirst :: "entry list \<Rightarrow> entry list" where
  "sortNewestFirst es = sort_key (\<lambda>e. - mtimeMs e) es"

section \<open>Errors, configuration and the outside world\<close>

text \<open>
  A thrown value: an error object with its \<^verbatim>\<open>name\<close>, its \<^verbatim>\<open>message\<close> and, for a failed
  child process, its \<^verbatim>\<open>stderr\<close>. \<^verbatim>\<open>new Error(m)\<close> has the name \<^verbatim>\<open>Error\<close> and no
  \<^verbatim>\<open>stderr\<close>.
\<close>

record js_error =
  err_name :: string
  err_message :: string
  err_stderr :: "string option"

definition newError :: "string \<Rightarrow> js_error" where
  "newError m = \<lparr>err_name = ''Error'', err_message = m, err_stderr = None\<rparr>"

text \<open>\<^verbatim>\<open>String(error)\<close> of an error object (\<^verbatim>\<open>Error.prototype.toString\<close>).\<close>

definition errorToString :: "js_error \<Rightarrow> string" where
  "errorToString e =
     (if err_name e = [] then err_message e
      else if err_message e = [] then err_name e
      else err_name e @ '': '' @ err_message e)"

text \<open>\<^verbatim>\<open>String(error?.stderr || error?.message || error)\<close>: an empty string is falsy.\<close>

definition errorText :: "js_error \<Rightarrow> string" where
  "errorText e =
     (case err_stderr e of
        Some s \<Rightarrow> if s \<noteq> [] then s else if err_message e \<noteq> [] then err_message e else errorToString e
      | None \<Rightarrow> if err_message e \<noteq> [] then err_message e else errorToString e)"

text \<open>The constants read from the environment at start-up.\<close>

record config =
  DOWNLOADS_DIR :: string
  TARGET_HEIGHT :: int
  YTDLP_CONCURRENT_FRAGMENTS :: int
  FFMPEG_PATH :: string

definition TELEGRAM_VIDEO_LIMIT_BYTES :: nat where
  "TELEGRAM_VIDEO_LIMIT_BYTES = 50 * 1024 * 1024"

record ytdlp_options =
  opt_format :: string
  opt_output :: string
  opt_concurrentFragments :: int
  opt_noWarnings :: bool
  opt_noPlaylist :: bool
  opt_ffmpegLocation :: "string option"

text \<open>
  How a spawned process ends for \<^verbatim>\<open>mergeWithFfmpeg\<close>: its \<^verbatim>\<open>error\<close> event comes first
  (it could not be started), or it closes with an exit code (\<^verbatim>\<open>null\<close> when a signal
  ended it) after writing the given text to its standard error.
\<close>

datatype proc_result = ProcError js_error | ProcClose "int option" string

text \<open>Every call that leaves the program, in order.\<close>

datatype event =
    YtDlpCall string ytdlp_options
  | SpawnCall string "string list"
  | SendMessage int string
  | EditMessageText string int int
  | SendVideo int path string
  | SetInterval
  | ClearInterval

text \<open>
  The outside world: the tools and the chat transport. Each is a function of its arguments
  and of a state \<^typ>\<open>'x\<close> of its own that the program cannot see (the network, the remote
  service, the clock); the two tools also read and write the file system. Nothing is
  assumed about them.
\<close>

record 'x externals =
  run_ytDlp :: "string \<Rightarrow> ytdlp_options \<Rightarrow> filesystem \<Rightarrow> 'x \<Rightarrow> (js_error + unit) \<times> filesystem \<times> 'x"
  run_spawn :: "string \<Rightarrow> string list \<Rightarrow> filesystem \<Rightarrow> 'x \<Rightarrow> proc_result \<times> filesystem \<times> 'x"
  run_sendMessage :: "int \<Rightarrow> string \<Rightarrow> 'x \<Rightarrow> (js_error + int) \<times> 'x"
  run_editMessageText :: "string \<Rightarrow> int \<Rightarrow> int \<Rightarrow> 'x \<Rightarrow> (js_error + unit) \<times> 'x"
  run_sendVideo :: "int \<Rightarrow> path \<Rightarrow> string \<Rightarrow> filesystem \<Rightarrow> 'x \<Rightarrow> (js_error + unit) \<times> 'x"
  run_dateNow :: "'x \<Rightarrow> nat"

record 'x world =
  files :: filesystem
  calls :: "event list"
  ext :: 'x

section \<open>The operations of \<^verbatim>\<open>src/index.js\<close>\<close>

text \<open>The calls that leave the program: each is recorded, then answered by the outside.\<close>

definition ytDlp :: "'x externals \<Rightarrow> string \<Rightarrow> ytdlp_options \<Rightarrow> 'x world \<Rightarrow> (js_error + unit) \<times> 'x world" where
  "ytDlp E url options w =
     (case run_ytDlp E url options (files w) (ext w) of
        (r, fs', x') \<Rightarrow> (r, \<lparr>files = fs', calls = calls w @ [YtDlpCall url options], ext = x'\<rparr>))"

definition spawn :: "'x externals \<Rightarrow> string \<Rightarrow> string list \<Rightarrow> 'x world \<Rightarrow> proc_result \<times> 'x world" where
  "spawn E bin args w =
     (case run_spawn E bin args (files w) (ext w) of
        (r, fs', x') \<Rightarrow> (r, \<lparr>files = fs', calls = calls w @ [SpawnCall bin args], ext = x'\<rparr>))"

definition sendMessage :: "'x externals \<Rightarrow> int \<Rightarrow> string \<Rightarrow> 'x world \<Rightarrow> (js_error + int) \<times> 'x world" where
  "sendMessage E chatId text w =
     (case run_sendMessage E chatId text (ext w) of
        (r, x') \<Rightarrow> (r, \<lparr>files = files w, calls = calls w @ [SendMessage chatId text], ext = x'\<rparr>))"

definition editMessageText :: "'x externals \<Rightarrow> string \<Rightarrow> int \<Rightarrow> int \<Rightarrow> 'x world \<Rightarrow> (js_error + unit) \<times> 'x world" where
  "editMessageText E text chatId messageId w =
     (case run_editMessageText E text chatId messageId (ext w) of
        (r, x') \<Rightarrow>
          (r, \<lparr>files = files w, calls = calls w @ [EditMessageText text chatId messageId], ext = x'\<rparr>))"

definition sendVideo :: "'x externals \<Rightarrow> int \<Rightarrow> path \<Rightarrow> string \<Rightarrow> 'x world \<Rightarrow> (js_error + unit) \<times> 'x world" where
  "sendVideo E chatId p caption w =
     (case run_sendVideo E chatId p caption (files w) (ext w) of
        (r, x') \<Rightarrow> (r, \<lparr>files = files w, calls = calls w @ [SendVideo chatId p caption], ext = x'\<rparr>))"

subsection \<open>Lines 39 to 64\<close>

text \<open>
  \<^verbatim>\<open>YOUTUBE_URL_REGEX\<close>, read as the backtracking matcher reads it: a literal is compared
  without regard to case, an optional part is tried first with and then without it, an
  alternative first on the left and then on the right. \<^verbatim>\<open>[\w-]{11}\<close> takes eleven
  characters of the class; the greedy \<^verbatim>\<open>[^\s]*\<close> ends the pattern, so its longest run is
  the match. Each function returns what is left of the text after the match.
\<close>

definition litCI :: "string \<Rightarrow> string \<Rightarrow> string option" where
  "litCI p s = (if toLowerCase (take (length p) s) = p then Some (drop (length p) s) else None)"

definition orElse :: "'a option \<Rightarrow> 'a option \<Rightarrow> 'a option" where
  "orElse a b = (case a of Some x \<Rightarrow> Some x | None \<Rightarrow> b)"

definition videoIdAndTail :: "string \<Rightarrow> string option" where
  "videoIdAndTail s =
     (if length (take 11 s) = 11 \<and> list_all isWordOrHyphen (take 11 s)
      then Some (dropWhile (\<lambda>c. \<not> isSpace c) (drop 11 s)) else None)"

definition hostAndId :: "string \<Rightarrow> string option" where
  "hostAndId s =
     orElse (Option.bind (litCI ''youtube.com/watch?v='' s) videoIdAndTail)
            (Option.bind (litCI ''youtu.be/'' s) videoIdAndTail)"

definition afterScheme :: "string \<Rightarrow> string option" where
  "afterScheme s =
     Option.bind (litCI ''://'' s)
       (\<lambda>r. orElse (Option.bind (litCI ''www.'' r) hostAndId) (hostAndId r))"

definition matchHere :: "string \<Rightarrow> string option" where
  "matchHere s =
     Option.bind (litCI ''http'' s)
       (\<lambda>r. orElse (Option.bind (litCI ''s'' r) afterScheme) (afterScheme r))"

text \<open>\<^verbatim>\<open>text.match(YOUTUBE_URL_REGEX)\<close>: the match at the leftmost position that has one.\<close>

fun matchFrom :: "string \<Rightarrow> string option" where
  "matchFrom [] = None"
| "matchFrom (c # cs) =
     (case matchHere (c # cs) of
        Some rest \<Rightarrow> Some (take (length (c # cs) - length rest) (c # cs))
      | None \<Rightarrow> matchFrom cs)"

text \<open>The argument is \<^verbatim>\<open>null\<close> (\<^term>\<open>None\<close>) or a string; \<^verbatim>\<open>!text\<close> holds for both
  \<^verbatim>\<open>null\<close> and the empty string.\<close>

definition extractYouTubeUrl :: "string option \<Rightarrow> string option" where
  "extractYouTubeUrl text =
     (case text of None \<Rightarrow> None | Some t \<Rightarrow> if t = [] then None else matchFrom t)"

definition buildOutputPath :: "config \<Rightarrow> int \<Rightarrow> int \<Rightarrow> nat \<Rightarrow> path" where
  "buildOutputPath cfg chatId messageId now =
     pathJoin (DOWNLOADS_DIR cfg)
       (''video_'' @ showInt chatId @ ''_'' @ showInt messageId @ ''_'' @ showNat now @ ''.mp4'')"

definition safeDelete :: "path \<Rightarrow> 'x world \<Rightarrow> 'x world" where
  "safeDelete filePath w =
     (if pathString filePath \<noteq> [] \<and> existsSync filePath (files w)
      then w\<lparr>files := unlinkSync filePath (files w)\<rparr> else w)"

definition cleanupByPrefix :: "config \<Rightarrow> path \<Rightarrow> 'x world \<Rightarrow> 'x world" where
  "cleanupByPrefix cfg prefixPath w =
     (let base = basename prefixPath in
        foldl (\<lambda>w' e. if startsWith (name e) base
                        then safeDelete (pathJoin (DOWNLOADS_DIR cfg) (name e)) w' else w')
          w (readdirSync (DOWNLOADS_DIR cfg) (files w)))"

subsection \<open>Lines 66 to 108: the status message and its timer\<close>

definition cycleSeconds :: int where
  "cycleSeconds = 30"

definition processingText :: "int \<Rightarrow> string" where
  "processingText r = ''Processing video... '' @ showInt r @ ''s''"

text \<open>The variables the timer's callback closes over.\<close>

record countdown =
  remaining :: int
  updating :: bool

definition initialCountdown :: countdown where
  "initialCountdown = \<lparr>remaining = cycleSeconds, updating = False\<rparr>"

text \<open>
  The callback of \<^verbatim>\<open>setInterval\<close> up to its \<^verbatim>\<open>await\<close>: what it leaves in the variables
  and the text of the edit it starts, if it starts one.
\<close>

definition tick :: "countdown \<Rightarrow> countdown \<times> string option" where
  "tick c =
     (if updating c then (c, None)
      else
        let c1 = c\<lparr>updating := True\<rparr>;
            c2 = c1\<lparr>remaining := remaining c1 - 1\<rparr>;
            c3 = (if remaining c2 \<le> 0 then c2\<lparr>remaining := cycleSeconds\<rparr> else c2)
        in (c3, Some (processingText (remaining c3))))"

text \<open>
  The rest of the callback, run when the edit it awaits has settled: the \<^verbatim>\<open>catch\<close>
  swallows a failure (\<open>ok = False\<close>) and the \<^verbatim>\<open>finally\<close> clears the flag either way.
\<close>

definition settle :: "bool \<Rightarrow> countdown \<Rightarrow> countdown" where
  "settle ok c = c\<lparr>updating := False\<rparr>"

text \<open>
  What happens to one status message while its job runs: the timer fires, or the edit
  that a processed tick started settles (which can only happen while one is pending).
  \<open>runTimer\<close> returns the variables and the numbers shown by the edits, oldest first.
\<close>

datatype timer_event = TimerFires | EditSettles bool

fun timerStep :: "countdown \<times> int list \<Rightarrow> timer_event \<Rightarrow> countdown \<times> int list" where
  "timerStep (c, shown) TimerFires =
     (case tick c of (c', None) \<Rightarrow> (c', shown) | (c', Some _) \<Rightarrow> (c', shown @ [remaining c']))"
| "timerStep (c, shown) (EditSettles ok) = (if updating c then (settle ok c, shown) else (c, shown))"

definition runTimer :: "timer_event list \<Rightarrow> countdown \<times> int list" where
  "runTimer evs = foldl timerStep (initialCountdown, []) evs"

text \<open>
  \<^verbatim>\<open>startCountdownStatus\<close> as the request handler sees it: the first message, then the
  timer is set. The edits of the timer's ticks run between the handler's own calls and are
  modelled above, not in the handler's trace.
\<close>

record status =
  status_chatId :: int
  statusMessageId :: int

definition startCountdownStatus :: "'x externals \<Rightarrow> int \<Rightarrow> 'x world \<Rightarrow> (js_error + status) \<times> 'x world" where
  "startCountdownStatus E chatId w =
     (case sendMessage E chatId (processingText (remaining initialCountdown)) w of
        (Inl e, w1) \<Rightarrow> (Inl e, w1)
      | (Inr mid, w1) \<Rightarrow>
          (Inr \<lparr>status_chatId = chatId, statusMessageId = mid\<rparr>, w1\<lparr>calls := calls w1 @ [SetInterval]\<rparr>))"

definition stop :: "'x externals \<Rightarrow> status \<Rightarrow> string \<Rightarrow> 'x world \<Rightarrow> 'x world" where
  "stop E st finalText w =
     (let w1 = w\<lparr>calls := calls w @ [ClearInterval]\<rparr> in
        snd (editMessageText E finalText (status_chatId st) (statusMessageId st) w1))"

subsection \<open>Lines 110 to 277: downloading, merging, resolving\<close>

definition ffmpegLocation :: "config \<Rightarrow> string option" where
  "ffmpegLocation cfg = (if FFMPEG_PATH cfg \<noteq> [] then Some (FFMPEG_PATH cfg) else None)"

definition progressiveFormat :: "config \<Rightarrow> string" where
  "progressiveFormat cfg =
     ''best[height<='' @ showInt (TARGET_HEIGHT cfg) @ ''][ext=mp4][acodec!=none][vcodec!=none]/'' @
     ''best[ext=mp4][acodec!=none][vcodec!=none]''"

definition downloadProgressiveFallback ::
  "'x externals \<Rightarrow> config \<Rightarrow> string \<Rightarrow> path \<Rightarrow> 'x world \<Rightarrow> (js_error + unit) \<times> 'x world" where
  "downloadProgressiveFallback E cfg url outputPath w =
     ytDlp E url
       \<lparr>opt_format = progressiveFormat cfg, opt_output = pathString outputPath,
        opt_concurrentFragments = YTDLP_CONCURRENT_FRAGMENTS cfg, opt_noWarnings = True,
        opt_noPlaylist = True, opt_ffmpegLocation = ffmpegLocation cfg\<rparr> w"

definition resolveFileByPrefix :: "path \<Rightarrow> 'x world \<Rightarrow> path option" where
  "resolveFileByPrefix prefixPath w =
     (let dir = dirname prefixPath;
          base = basename prefixPath;
          matches =
            sortNewestFirst
              (filter (\<lambda>e. \<not> isPartial (name e))
                 (filter (\<lambda>e. startsWith (name e) base) (readdirSync dir (files w))))
      in case matches of [] \<Rightarrow> None | m # _ \<Rightarrow> Some (pathJoin dir (name m)))"

definition downloadSingleStream ::
  "'x externals \<Rightarrow> config \<Rightarrow> string \<Rightarrow> string \<Rightarrow> path \<Rightarrow> 'x world \<Rightarrow> (js_error + path) \<times> 'x world" where
  "downloadSingleStream E cfg url fmt prefixPath w =
     (case ytDlp E url
             \<lparr>opt_format = fmt, opt_output = pathString prefixPath @ ''.%(ext)s'',
              opt_concurrentFragments = YTDLP_CONCURRENT_FRAGMENTS cfg, opt_noWarnings = True,
              opt_noPlaylist = True, opt_ffmpegLocation = ffmpegLocation cfg\<rparr> w of
        (Inl e, w1) \<Rightarrow> (Inl e, w1)
      | (Inr _, w1) \<Rightarrow>
          (case resolveFileByPrefix prefixPath w1 of
             None \<Rightarrow>
               (Inl (newError (''Stream output was not found for prefix: '' @ pathString prefixPath)), w1)
           | Some filePath \<Rightarrow> (Inr filePath, w1)))"

text \<open>\<^verbatim>\<open>`${code}`\<close> for the exit code of the \<^verbatim>\<open>close\<close> event.\<close>

definition showCode :: "int option \<Rightarrow> string" where
  "showCode code = (case code of None \<Rightarrow> ''null'' | Some n \<Rightarrow> showInt n)"

definition ffmpegArgs :: "path \<Rightarrow> path \<Rightarrow> path \<Rightarrow> string list" where
  "ffmpegArgs videoPath audioPath outputPath =
     [''-y'', ''-i'', pathString videoPath, ''-i'', pathString audioPath, ''-c:v'', ''copy'',
      ''-c:a'', ''aac'', ''-b:a'', ''192k'', ''-movflags'', ''+faststart'', pathString outputPath]"

definition mergeWithFfmpeg ::
  "'x externals \<Rightarrow> config \<Rightarrow> path \<Rightarrow> path \<Rightarrow> path \<Rightarrow> 'x world \<Rightarrow> (js_error + unit) \<times> 'x world" where
  "mergeWithFfmpeg E cfg videoPath audioPath outputPath w =
     (let ffmpegBin = (if FFMPEG_PATH cfg \<noteq> [] then FFMPEG_PATH cfg else ''ffmpeg'');
          w1 = safeDelete outputPath w
      in case spawn E ffmpegBin (ffmpegArgs videoPath audioPath outputPath) w1 of
           (ProcError err, w2) \<Rightarrow> (Inl err, w2)
         | (ProcClose code stderr, w2) \<Rightarrow>
             if code = Some 0 \<and> existsSync outputPath (files w2) then (Inr (), w2)
             else (Inl (newError (if stderr \<noteq> [] then stderr
                                  else ''ffmpeg exited with code '' @ showCode code)), w2))"

definition videoFormat :: "config \<Rightarrow> string" where
  "videoFormat cfg = ''bestvideo[height<='' @ showInt (TARGET_HEIGHT cfg) @ ''][vcodec!=none]''"

definition audioFormat :: string where
  "audioFormat = ''bestaudio[acodec!=none]''"

definition tempPrefix :: "'x externals \<Rightarrow> path \<Rightarrow> 'x world \<Rightarrow> path" where
  "tempPrefix E outputPath w = pathAppend outputPath (''.hq_'' @ showNat (run_dateNow E (ext w)))"

definition videoPrefix :: "'x externals \<Rightarrow> path \<Rightarrow> 'x world \<Rightarrow> path" where
  "videoPrefix E outputPath w = pathAppend (tempPrefix E outputPath w) ''.video''"

definition audioPrefix :: "'x externals \<Rightarrow> path \<Rightarrow> 'x world \<Rightarrow> path" where
  "audioPrefix E outputPath w = pathAppend (tempPrefix E outputPath w) ''.audio''"

text \<open>The \<^verbatim>\<open>try\<close> block of \<^verbatim>\<open>downloadHighQualityMerged\<close>.\<close>

definition highQualityTry ::
  "'x externals \<Rightarrow> config \<Rightarrow> string \<Rightarrow> path \<Rightarrow> path \<Rightarrow> path \<Rightarrow> 'x world \<Rightarrow> (js_error + unit) \<times> 'x world" where
  "highQualityTry E cfg url outputPath vPrefix aPrefix w =
     (case downloadSingleStream E cfg url (videoFormat cfg) vPrefix w of
        (Inl e, w1) \<Rightarrow> (Inl e, w1)
      | (Inr videoPath, w1) \<Rightarrow>
          (case downloadSingleStream E cfg url audioFormat aPrefix w1 of
             (Inl e, w2) \<Rightarrow> (Inl e, w2)
           | (Inr audioPath, w2) \<Rightarrow> mergeWithFfmpeg E cfg videoPath audioPath outputPath w2))"

text \<open>The \<^verbatim>\<open>finally\<close> block runs after the \<^verbatim>\<open>try\<close> block whatever its outcome, which is
  then the outcome of the function.\<close>

definition downloadHighQualityMerged ::
  "'x externals \<Rightarrow> config \<Rightarrow> string \<Rightarrow> path \<Rightarrow> 'x world \<Rightarrow> (js_error + unit) \<times> 'x world" where
  "downloadHighQualityMerged E cfg url outputPath w =
     (let vPrefix = videoPrefix E outputPath w;
          aPrefix = audioPrefix E outputPath w
      in case highQualityTry E cfg url outputPath vPrefix aPrefix w of
           (r, w1) \<Rightarrow> (r, cleanupByPrefix cfg aPrefix (cleanupByPrefix cfg vPrefix w1)))"

text \<open>The scan of \<^verbatim>\<open>runAndResolveFile\<close> for an output path that does not exist.\<close>

definition scanMatches :: "path \<Rightarrow> 'x world \<Rightarrow> entry list" where
  "scanMatches outputPath w =
     (let dir = dirname outputPath;
          requestedBase = basenameExt outputPath (extname outputPath)
      in sortNewestFirst
           (filter (\<lambda>e. isMediaContainer (name e))
              (filter (\<lambda>e. \<not> isPartial (name e))
                 (filter (\<lambda>e. startsWith (name e) requestedBase) (readdirSync dir (files w))))))"

definition runAndResolveFile ::
  "(string \<Rightarrow> path \<Rightarrow> 'x world \<Rightarrow> (js_error + unit) \<times> 'x world) \<Rightarrow> string \<Rightarrow> path \<Rightarrow> 'x world
     \<Rightarrow> (js_error + path) \<times> 'x world" where
  "runAndResolveFile downloadFn url outputPath w =
     (case downloadFn url outputPath w of
        (Inl e, w1) \<Rightarrow> (Inl e, w1)
      | (Inr _, w1) \<Rightarrow>
          if \<not> existsSync outputPath (files w1) then
            (let matches = scanMatches outputPath w1 in
               if matches = [] then
                 (Inl (newError ''Download finished but output video file was not found.''), w1)
               else
                 (let cleanMp4 = List.find (\<lambda>e. isMp4 (name e) \<and> \<not> isIntermediate (name e)) matches;
                      cleanOther = List.find (\<lambda>e. \<not> isIntermediate (name e)) matches
                  in case orElse cleanMp4 cleanOther of
                       None \<Rightarrow>
                         (Inl (newError ''Only intermediate stream files were found after download.''), w1)
                     | Some m \<Rightarrow> (Inr (pathJoin (dirname outputPath) (name m)), w1)))
          else (Inr outputPath, w1))"

subsection \<open>Lines 279 to 347: the orchestrator and the request handler\<close>

definition looksLikeMergeIssue :: "js_error \<Rightarrow> bool" where
  "looksLikeMergeIssue error =
     (let message = toLowerCase (errorText error) in
        includes_str message ''ffmpeg'' \<or>
        includes_str message ''intermediate stream files'' \<or>
        includes_str message ''stream output was not found'')"

definition downloadVideo ::
  "'x externals \<Rightarrow> config \<Rightarrow> string \<Rightarrow> path \<Rightarrow> 'x world \<Rightarrow> (js_error + path \<times> bool) \<times> 'x world" where
  "downloadVideo E cfg url outputPath w =
     (case runAndResolveFile (downloadHighQualityMerged E cfg) url outputPath w of
        (Inr filePath, w1) \<Rightarrow> (Inr (filePath, False), w1)
      | (Inl error, w1) \<Rightarrow>
          if \<not> looksLikeMergeIssue error then (Inl error, w1)
          else
            (case runAndResolveFile (downloadProgressiveFallback E cfg) url outputPath w1 of
               (Inl e, w2) \<Rightarrow> (Inl e, w2)
             | (Inr filePath, w2) \<Rightarrow> (Inr (filePath, True), w2)))"

record message =
  msg_chat_id :: int
  msg_message_id :: int
  msg_text :: "string option"

definition fallbackNotice :: string where
  "fallbackNotice =
     ''Sent fallback quality because ffmpeg merge was unavailable. Set FFMPEG_PATH in .env to enable high quality merge.''"

text \<open>\<^verbatim>\<open>fs.statSync\<close> of a path that does not exist throws.\<close>

definition statError :: "path \<Rightarrow> js_error" where
  "statError p = newError (''ENOENT: no such file or directory, stat '' @ pathString p)"

text \<open>
  Lines 321 to 333, reached with the resolved file in \<^verbatim>\<open>downloadedPath\<close>: the size check,
  then the branch that refuses or the branch that sends.
\<close>

definition sizeCheckAndSend ::
  "'x externals \<Rightarrow> int \<Rightarrow> path \<Rightarrow> status \<Rightarrow> 'x world \<Rightarrow> (js_error + unit) \<times> 'x world" where
  "sizeCheckAndSend E chatId downloadedPath st w =
     (case statSync downloadedPath (files w) of
        None \<Rightarrow> (Inl (statError downloadedPath), w)
      | Some stats \<Rightarrow>
          if fsize stats > TELEGRAM_VIDEO_LIMIT_BYTES then
            (let w1 = stop E st ''Video too large to send.'' w in
               case sendMessage E chatId ''Video too large to send.'' w1 of
                 (Inl e, w2) \<Rightarrow> (Inl e, w2)
               | (Inr _, w2) \<Rightarrow> (Inr (), safeDelete downloadedPath w2))
          else
            (case sendVideo E chatId downloadedPath ''Here is your downloaded video.'' w of
               (Inl e, w1) \<Rightarrow> (Inl e, w1)
             | (Inr _, w1) \<Rightarrow>
                 (Inr (), safeDelete downloadedPath (stop E st ''Video sent successfully.'' w1))))"

text \<open>
  The \<^verbatim>\<open>try\<close> block of the handler: its outcome, the values of \<^verbatim>\<open>downloadedPath\<close> and
  \<^verbatim>\<open>status\<close> when it ends (the \<^verbatim>\<open>catch\<close> block reads them), and the world.
\<close>

definition handlerTry ::
  "'x externals \<Rightarrow> config \<Rightarrow> int \<Rightarrow> string \<Rightarrow> path \<Rightarrow> 'x world
     \<Rightarrow> (js_error + unit) \<times> path option \<times> status option \<times> 'x world" where
  "handlerTry E cfg chatId youtubeUrl outputPath w =
     (case startCountdownStatus E chatId w of
        (Inl e, w1) \<Rightarrow> (Inl e, None, None, w1)
      | (Inr st, w1) \<Rightarrow>
          (case downloadVideo E cfg youtubeUrl outputPath w1 of
             (Inl e, w2) \<Rightarrow> (Inl e, None, Some st, w2)
           | (Inr (filePath, usedFallback), w2) \<Rightarrow>
               (case (if usedFallback then sendMessage E chatId fallbackNotice w2 else (Inr 0, w2)) of
                  (Inl e, w3) \<Rightarrow> (Inl e, Some filePath, Some st, w3)
                | (Inr _, w3) \<Rightarrow>
                    (case sizeCheckAndSend E chatId filePath st w3 of
                       (r, w4) \<Rightarrow> (r, Some filePath, Some st, w4)))))"

text \<open>The \<^verbatim>\<open>catch\<close> block; a failure of its own \<^verbatim>\<open>sendMessage\<close> ends the handler there.\<close>

definition handlerCatch ::
  "'x externals \<Rightarrow> config \<Rightarrow> int \<Rightarrow> path \<Rightarrow> path option \<Rightarrow> status option \<Rightarrow> 'x world
     \<Rightarrow> (js_error + unit) \<times> 'x world" where
  "handlerCatch E cfg chatId outputPath downloadedPath st w =
     (let w1 = (case st of Some s \<Rightarrow> stop E s ''Failed to download or send the video.'' w | None \<Rightarrow> w)
      in case sendMessage E chatId ''Failed to download or send the video.'' w1 of
           (Inl e, w2) \<Rightarrow> (Inl e, w2)
         | (Inr _, w2) \<Rightarrow>
             (Inr (), (case downloadedPath of
                         Some p \<Rightarrow> safeDelete p w2
                       | None \<Rightarrow> cleanupByPrefix cfg outputPath w2)))"

text \<open>\<^verbatim>\<open>bot.on('message', ...)\<close>\<close>

definition onMessage :: "'x externals \<Rightarrow> config \<Rightarrow> message \<Rightarrow> 'x world \<Rightarrow> (js_error + unit) \<times> 'x world" where
  "onMessage E cfg msg w =
     (let chatId = msg_chat_id msg;
          text = (case msg_text msg of None \<Rightarrow> [] | Some t \<Rightarrow> t)
      in case extractYouTubeUrl (Some text) of
           None \<Rightarrow> (Inr (), w)
         | Some youtubeUrl \<Rightarrow>
             (let outputPath = buildOutputPath cfg chatId (msg_message_id msg) (run_dateNow E (ext w))
              in case handlerTry E cfg chatId youtubeUrl outputPath w of
                   (Inr _, _, _, w1) \<Rightarrow> (Inr (), w1)
                 | (Inl error, downloadedPath, st, w1) \<Rightarrow>
                     handlerCatch E cfg chatId outputPath downloadedPath st w1))"

section \<open>Notions used to state the properties\<close>

text \<open>The calls made between two worlds of one run.\<close>

definition newCalls :: "'x world \<Rightarrow> 'x world \<Rightarrow> event list" where
  "newCalls w w' = drop (length (calls w)) (calls w')"

text \<open>
  An attempt of the progressive path is a call of the downloader with the progressive
  format; an attempt of the high-quality path starts with a call of the downloader with
  the video-only format.
\<close>

definition isProgressiveAttempt :: "config \<Rightarrow> event \<Rightarrow> bool" where
  "isProgressiveAttempt cfg ev =
     (case ev of YtDlpCall _ options \<Rightarrow> opt_format options = progressiveFormat cfg | _ \<Rightarrow> False)"

definition isHighQualityAttempt :: "config \<Rightarrow> event \<Rightarrow> bool" where
  "isHighQualityAttempt cfg ev =
     (case ev of YtDlpCall _ options \<Rightarrow> opt_format options = videoFormat cfg | _ \<Rightarrow> False)"


text \<open>The number shown by the \<open>k\<close>-th processed tick of a status message.\<close>

definition shownAt :: "nat \<Rightarrow> int" where
  "shownAt k = cycleSeconds - int (k mod 30)"

text \<open>
  The entries the scan of \<^verbatim>\<open>runAndResolveFile\<close> keeps: in the directory of the output
  path, named with the requested base, not partial, with the extension of a media
  container. A clean candidate is one that is not an intermediate stream file.
\<close>

definition requestedBase :: "path \<Rightarrow> string" where
  "requestedBase outputPath = basenameExt outputPath (extname outputPath)"

definition candidate :: "path \<Rightarrow> 'x world \<Rightarrow> entry \<Rightarrow> bool" where
  "candidate outputPath w e =
     (e \<in> set (files w (dirname outputPath)) \<and> startsWith (name e) (requestedBase outputPath) \<and>
      \<not> isPartial (name e) \<and> isMediaContainer (name e))"

definition cleanCandidate :: "path \<Rightarrow> 'x world \<Rightarrow> entry \<Rightarrow> bool" where
  "cleanCandidate outputPath w e = (candidate outputPath w e \<and> \<not> isIntermediate (name e))"

text \<open>The entries \<^verbatim>\<open>resolveFileByPrefix\<close> keeps.\<close>

definition prefixMatch :: "path \<Rightarrow> 'x world \<Rightarrow> entry \<Rightarrow> bool" where
  "prefixMatch prefixPath w e =
     (e \<in> set (files w (dirname prefixPath)) \<and> startsWith (name e) (basename prefixPath) \<and>
      \<not> isPartial (name e))"

text \<open>What every run of the timer keeps true of the variables and of the numbers shown.\<close>

definition timerInv :: "countdown \<times> int list \<Rightarrow> bool" where
  "timerInv s = (remaining (fst s) = shownAt (length (snd s)) \<and>
                 snd s = map shownAt [1..<Suc (length (snd s))])"

text \<open>
  The sentence of the specification on the File Resolver, as a test on a directory: the
  entry named \<open>n\<close> starts with the requested base, is neither partial nor intermediate,
  and no other such entry was modified later.
\<close>

definition claimedNewestClean :: "string \<Rightarrow> entry list \<Rightarrow> string \<Rightarrow> bool" where
  "claimedNewestClean base es n =
     list_ex (\<lambda>m. name m = n \<and> startsWith (name m) base \<and> \<not> isPartial (name m) \<and>
                  \<not> isIntermediate (name m) \<and>
                  list_all (\<lambda>e. startsWith (name e) base \<and> \<not> isPartial (name e) \<and>
                                \<not> isIntermediate (name e) \<longrightarrow> mtimeMs e \<le> mtimeMs m) es) es"

subsection \<open>Concrete inputs\<close>

definition exampleConfig :: config where
  "exampleConfig =
     \<lparr>DOWNLOADS_DIR = ''downloads'', TARGET_HEIGHT = 1080, YTDLP_CONCURRENT_FRAGMENTS = 8,
      FFMPEG_PATH = []\<rparr>"

definition exampleOutput :: path where
  "exampleOutput = Path ''downloads'' ''video_7_1_1000.mp4''"

text \<open>A world whose download directory holds the given entries; nothing has been called.\<close>

definition worldWith :: "entry list \<Rightarrow> unit world" where
  "worldWith es = \<lparr>files = (\<lambda>d. if d = ''downloads'' then es else []), calls = [], ext = ()\<rparr>"

text \<open>A download that succeeds and leaves the directory as it finds it.\<close>

definition idleDownload :: "string \<Rightarrow> path \<Rightarrow> unit world \<Rightarrow> (js_error + unit) \<times> unit world" where
  "idleDownload url outputPath w = (Inr (), w)"

definition mkvNewerThanMp4 :: "entry list" where
  "mkvNewerThanMp4 =
     [\<lparr>name = ''video_7_1_1000.old.mp4'', mtimeMs = 5, fsize = 100\<rparr>,
      \<lparr>name = ''video_7_1_1000.mkv'', mtimeMs = 9, fsize = 100\<rparr>]"

definition onlyIntermediates :: "entry list" where
  "onlyIntermediates =
     [\<lparr>name = ''video_7_1_1000.f137.mp4'', mtimeMs = 5, fsize = 100\<rparr>,
      \<lparr>name = ''video_7_1_1000.f251.webm'', mtimeMs = 9, fsize = 100\<rparr>,
      \<lparr>name = ''video_7_1_1000.mp4.part'', mtimeMs = 11, fsize = 100\<rparr>]"

text \<open>One step of the loop of \<^verbatim>\<open>cleanupByPrefix\<close>.\<close>

definition sweepStep :: "string \<Rightarrow> string \<Rightarrow> 'x world \<Rightarrow> entry \<Rightarrow> 'x world" where
  "sweepStep dir base w' e =
     (if startsWith (name e) base then safeDelete (pathJoin dir (name e)) w' else w')"

text \<open>
  The sentence of the specification on a failed merge: the failure carries the text the
  process wrote to its standard error, or, when it wrote none, the generic message with
  the exit code.
\<close>

definition claimedMergeFailure :: "string \<Rightarrow> int option \<Rightarrow> js_error" where
  "claimedMergeFailure stderr code =
     newError (if stderr \<noteq> [] then stderr else ''ffmpeg exited with code '' @ showCode code)"

text \<open>
  An outside world for a job of chat 7, message 1, started at time 5, where the encoder
  is not installed: the downloader succeeds and writes a file of \<open>sz\<close> bytes named after
  the format it was asked for, starting the encoder fails with the error Node reports for
  a missing program, and the chat transport accepts every call.
\<close>

definition spawnEnoent :: js_error where
  "spawnEnoent = newError ''spawn ffmpeg ENOENT''"

definition exampleYtDlp ::
  "nat \<Rightarrow> string \<Rightarrow> ytdlp_options \<Rightarrow> filesystem \<Rightarrow> unit \<Rightarrow> (js_error + unit) \<times> filesystem \<times> unit" where
  "exampleYtDlp sz url options fs x =
     (Inr (),
      fs(''downloads'' :=
           \<lparr>name = (if opt_format options = videoFormat exampleConfig
                     then ''video_7_1_5.mp4.hq_5.video.webm''
                     else if opt_format options = audioFormat
                     then ''video_7_1_5.mp4.hq_5.audio.m4a''
                     else ''video_7_1_5.mp4''),
            mtimeMs = 1, fsize = sz\<rparr> # fs ''downloads''),
      x)"

definition encoderMissing :: "nat \<Rightarrow> unit externals" where
  "encoderMissing sz =
     \<lparr>run_ytDlp = exampleYtDlp sz,
      run_spawn = (\<lambda>bin args fs x. (ProcError spawnEnoent, fs, x)),
      run_sendMessage = (\<lambda>chatId text x. (Inr 42, x)),
      run_editMessageText = (\<lambda>text chatId messageId x. (Inr (), x)),
      run_sendVideo = (\<lambda>chatId p caption fs x. (Inr (), x)),
      run_dateNow = (\<lambda>x. 5)\<rparr>"

text \<open>The same world without a network: the downloader leaves a partial file and fails.\<close>

definition networkUnreachable :: js_error where
  "networkUnreachable =
     \<lparr>err_name = ''Error'', err_message = ''Command failed with exit code 1'',
      err_stderr = Some ''ERROR: network unreachable''\<rparr>"

definition offline :: "unit externals" where
  "offline =
     (encoderMissing 0)
       \<lparr>run_ytDlp := (\<lambda>url options fs x.
          (Inl networkUnreachable,
           fs(''downloads'' :=
                \<lparr>name = ''video_7_1_5.mp4.hq_5.video.webm.part'', mtimeMs = 1, fsize = 10\<rparr>
                # fs ''downloads''),
           x))\<rparr>"

definition jobOutput :: path where
  "jobOutput = buildOutputPath exampleConfig 7 1 5"


text \<open>The world of \<open>encoderMissing\<close> with an encoder that ends as given, after writing
  the given entries into the download directory.\<close>

definition encoderEnds :: "proc_result \<Rightarrow> entry list \<Rightarrow> unit externals" where
  "encoderEnds outcome written =
     (encoderMissing 0)
       \<lparr>run_spawn := (\<lambda>bin args fs x. (outcome, fs(''downloads'' := written @ fs ''downloads''), x))\<rparr>"

definition videoStream :: path where
  "videoStream = Path ''downloads'' ''video_7_1_5.mp4.hq_5.video.webm''"

definition audioStream :: path where
  "audioStream = Path ''downloads'' ''video_7_1_5.mp4.hq_5.audio.m4a''"

definition mergedFile :: entry where
  "mergedFile = \<lparr>name = ''video_7_1_5.mp4'', mtimeMs = 2, fsize = 1000\<rparr>"

text \<open>A call of one of the two tools, as opposed to a call of the chat transport.\<close>

definition isToolCall :: "event \<Rightarrow> bool" where
  "isToolCall ev = (case ev of YtDlpCall _ _ \<Rightarrow> True | SpawnCall _ _ \<Rightarrow> True | _ \<Rightarrow> False)"

text \<open>A call of a tool that starts neither path: the audio download and the encoder.\<close>

definition quiet :: "config \<Rightarrow> event \<Rightarrow> bool" where
  "quiet cfg ev = (isToolCall ev \<and> \<not> isProgressiveAttempt cfg ev \<and> \<not> isHighQualityAttempt cfg ev)"

text \<open>
  The parts of a link the pattern accepts: the scheme, the optional \<^verbatim>\<open>www.\<close>, the host
  with the start of the path, eleven characters of \<^verbatim>\<open>[\w-]\<close>, and a tail without white
  space.
\<close>

definition linkParts :: "string \<Rightarrow> string \<Rightarrow> string \<Rightarrow> string \<Rightarrow> string \<Rightarrow> bool" where
  "linkParts scheme www host ident tail =
     (toLowerCase scheme \<in> {''http://'', ''https://''} \<and> toLowerCase www \<in> {[], ''www.''} \<and>
      toLowerCase host \<in> {''youtube.com/watch?v='', ''youtu.be/''} \<and>
      length ident = 11 \<and> list_all isWordOrHyphen ident \<and> list_all (\<lambda>c. \<not> isSpace c) tail)"

text \<open>
  The sentence of the specification on recognized links, as a test on a text: somewhere in
  it stands \<^verbatim>\<open>http://\<close> or \<^verbatim>\<open>https://\<close>, an optional \<^verbatim>\<open>www.\<close>, \<^verbatim>\<open>youtube.com/watch?v=\<close> or
  \<^verbatim>\<open>youtu.be/\<close>, and then a video id of exactly eleven letters, digits, underscores or
  hyphens: the run of such characters that follows has length eleven.
\<close>

definition claimedLinkAt :: "string \<Rightarrow> bool" where
  "claimedLinkAt s =
     (case Option.bind (orElse (litCI ''https://'' s) (litCI ''http://'' s))
             (\<lambda>r. let r' = (case litCI ''www.'' r of Some x \<Rightarrow> x | None \<Rightarrow> r)
                  in orElse (litCI ''youtube.com/watch?v='' r') (litCI ''youtu.be/'' r')) of
        None \<Rightarrow> False
      | Some rest \<Rightarrow> length (takeWhile isWordOrHyphen rest) = 11)"

fun claimedLink :: "string \<Rightarrow> bool" where
  "claimedLink [] = False"
| "claimedLink (c # cs) = (claimedLinkAt (c # cs) \<or> claimedLink cs)"




section \<open>Properties\<close>

subsection \<open>The status message's timer\<close>

lemma runTimer_snoc: "runTimer (evs @ [e]) = timerStep (runTimer evs) e"
  by (simp add: runTimer_def)

lemma shownAt_Suc: "shownAt (Suc k) = (if shownAt k - 1 \<le> 0 then cycleSeconds else shownAt k - 1)"
proof -
  have "Suc k mod 30 = (if k mod 30 = 29 then 0 else Suc (k mod 30))"
    by (simp add: mod_Suc)
  moreover have "k mod 30 < 30" by simp
  ultimately show ?thesis
    by (auto simp: shownAt_def cycleSeconds_def)
qed

lemma shownAt_range: "1 \<le> shownAt k \<and> shownAt k \<le> 30"
proof -
  have "k mod 30 < 30" by simp
  then show ?thesis by (simp add: shownAt_def cycleSeconds_def)
qed

lemma tick_idle:
  "\<not> updating c \<Longrightarrow>
   tick c = (c\<lparr>updating := True,
               remaining := (if remaining c - 1 \<le> 0 then cycleSeconds else remaining c - 1)\<rparr>,
             Some (processingText (if remaining c - 1 \<le> 0 then cycleSeconds else remaining c - 1)))"
  by (simp add: tick_def Let_def)

lemma tick_busy: "updating c \<Longrightarrow> tick c = (c, None)"
  by (simp add: tick_def)

lemma timerInv_init: "timerInv (initialCountdown, [])"
  by (simp add: timerInv_def initialCountdown_def shownAt_def)

lemma timerInv_step: "timerInv s \<Longrightarrow> timerInv (timerStep s e)"
proof (cases s)
  case (Pair c shown)
  assume inv: "timerInv s"
  show ?thesis
  proof (cases e)
    case TimerFires
    show ?thesis
    proof (cases "updating c")
      case True
      with inv Pair TimerFires show ?thesis
        by (simp add: tick_busy del: upt_Suc)
    next
      case False
      have "shown = map shownAt [1..<Suc (length shown)]" and "remaining c = shownAt (length shown)"
        using inv Pair by (simp_all add: timerInv_def)
      then show ?thesis
        using Pair TimerFires False by (simp add: tick_idle timerInv_def shownAt_Suc)
    qed
  next
    case (EditSettles ok)
    with inv Pair show ?thesis
      by (simp add: timerInv_def settle_def del: upt_Suc)
  qed
qed

lemma timerInv_run: "timerInv (runTimer evs)"
proof (induction evs rule: rev_induct)
  case Nil
  show ?case by (simp add: runTimer_def timerInv_init)
next
  case (snoc e evs)
  then show ?case by (simp add: runTimer_snoc timerInv_step)
qed

text \<open>
  Claim C7. The counter of a status message starts at 30. After any sequence of timer
  firings and settled edits it lies between 1 and 30, and the \<open>k\<close>-th processed tick
  shows \<open>30 - k mod 30\<close>: 29, 28, ..., 1, 30, 29, ... after the 30 of the first message.
  A processed tick takes one off the counter and sets it back to 30 when that would
  leave zero or less.
\<close>

theorem countdown_stays_in_cycle:
  "remaining initialCountdown = 30 \<and>
   1 \<le> remaining (fst (runTimer evs)) \<and> remaining (fst (runTimer evs)) \<le> 30 \<and>
   remaining (fst (runTimer evs)) = 30 - int (length (snd (runTimer evs)) mod 30) \<and>
   snd (runTimer evs) = map (\<lambda>k. 30 - int (k mod 30)) [1..<Suc (length (snd (runTimer evs)))] \<and>
   (\<not> updating c \<longrightarrow>
      remaining (fst (tick c)) = (if remaining c - 1 \<le> 0 then 30 else remaining c - 1))"
proof -
  have inv: "timerInv (runTimer evs)" by (rule timerInv_run)
  have sh: "shownAt = (\<lambda>k. 30 - int (k mod 30))"
    by (rule ext) (simp add: shownAt_def cycleSeconds_def)
  have r: "remaining (fst (runTimer evs)) = shownAt (length (snd (runTimer evs)))"
    using inv by (simp add: timerInv_def)
  have "1 \<le> remaining (fst (runTimer evs))" and "remaining (fst (runTimer evs)) \<le> 30"
    using shownAt_range[of "length (snd (runTimer evs))"] r by simp_all
  moreover have "remaining (fst (runTimer evs)) = 30 - int (length (snd (runTimer evs)) mod 30)"
    using r by (simp add: sh)
  moreover have "snd (runTimer evs) = map (\<lambda>k. 30 - int (k mod 30)) [1..<Suc (length (snd (runTimer evs)))]"
    using inv unfolding timerInv_def sh by blast
  moreover have "remaining initialCountdown = 30"
    by (simp add: initialCountdown_def cycleSeconds_def)
  moreover have "\<not> updating c \<longrightarrow>
      remaining (fst (tick c)) = (if remaining c - 1 \<le> 0 then 30 else remaining c - 1)"
    by (simp add: tick_idle cycleSeconds_def)
  ultimately show ?thesis by blast
qed

theorem countdown_stays_in_cycle_witness:
  "\<not> updating \<lparr>remaining = 1, updating = False\<rparr> \<and>
   remaining (fst (tick \<lparr>remaining = 1, updating = False\<rparr>)) = 30 \<and>
   snd (runTimer [TimerFires, TimerFires, EditSettles False, TimerFires, EditSettles True, TimerFires])
     = [29, 28, 27] \<and>
   remaining (fst (runTimer [TimerFires, TimerFires, EditSettles False, TimerFires, EditSettles True,
     TimerFires])) = 27"
  using countdown_stays_in_cycle
    [of "[TimerFires, TimerFires, EditSettles False, TimerFires, EditSettles True, TimerFires]"
        "\<lparr>remaining = 1, updating = False\<rparr>"]
  by (simp add: runTimer_def tick_def settle_def initialCountdown_def cycleSeconds_def Let_def)

text \<open>
  Claim C9. A firing of the timer while an edit is pending returns at once: the variables
  are unchanged and no edit is started. The counter changes only in a tick that starts an
  edit, which sets the flag; the flag is cleared when that edit settles, whether it
  succeeded or failed, and the counter is not touched then.
\<close>

theorem tick_skipped_while_updating:
  "(updating c \<longrightarrow> tick c = (c, None) \<and> timerStep (c, shown) TimerFires = (c, shown)) \<and>
   (\<not> updating c \<longrightarrow>
      snd (tick c) = Some (processingText (remaining (fst (tick c)))) \<and> updating (fst (tick c))) \<and>
   (remaining (fst (tick c)) \<noteq> remaining c \<longrightarrow> snd (tick c) \<noteq> None) \<and>
   \<not> updating (settle ok (fst (tick c))) \<and>
   remaining (settle ok (fst (tick c))) = remaining (fst (tick c))"
  by (cases "updating c") (simp_all add: tick_busy tick_idle settle_def)

theorem tick_skipped_while_updating_witness:
  "updating \<lparr>remaining = 12, updating = True\<rparr> \<and>
   tick \<lparr>remaining = 12, updating = True\<rparr> = (\<lparr>remaining = 12, updating = True\<rparr>, None) \<and>
   \<not> updating \<lparr>remaining = 12, updating = False\<rparr> \<and>
   tick \<lparr>remaining = 12, updating = False\<rparr>
     = (\<lparr>remaining = 11, updating = True\<rparr>, Some ''Processing video... 11s'') \<and>
   \<not> updating (settle False (fst (tick \<lparr>remaining = 12, updating = False\<rparr>)))"
  using tick_skipped_while_updating [of "\<lparr>remaining = 12, updating = True\<rparr>" "[]" False]
    tick_skipped_while_updating [of "\<lparr>remaining = 12, updating = False\<rparr>" "[]" False]
  by (simp add: tick_def settle_def cycleSeconds_def processingText_def showInt_def showNat.simps
      digitChar_def Let_def)

subsection \<open>Resolving the output file\<close>

lemma find_newest:
  assumes "List.find P (sortNewestFirst es) = Some m"
  shows "m \<in> set es \<and> P m \<and> (\<forall>e\<in>set es. P e \<longrightarrow> mtimeMs e \<le> mtimeMs m)"
proof -
  let ?xs = "sortNewestFirst es"
  from assms obtain i where i: "i < length ?xs" "P (?xs ! i)" "m = ?xs ! i" "\<forall>j<i. \<not> P (?xs ! j)"
    by (auto simp: find_Some_iff)
  have srt: "sorted (map (\<lambda>e. - mtimeMs e) ?xs)"
    by (simp add: sortNewestFirst_def)
  have st: "set ?xs = set es"
    by (simp add: sortNewestFirst_def)
  have "mtimeMs e \<le> mtimeMs m" if "e \<in> set es" "P e" for e
  proof -
    from that st obtain k where k: "k < length ?xs" "e = ?xs ! k"
      by (metis in_set_conv_nth)
    with i that have "i \<le> k" by (meson not_le_imp_less)
    with srt k have "(map (\<lambda>e. - mtimeMs e) ?xs) ! i \<le> (map (\<lambda>e. - mtimeMs e) ?xs) ! k"
      by (simp add: sorted_iff_nth_mono)
    with i k show ?thesis by simp
  qed
  moreover have "m \<in> set es" using i st by (metis nth_mem)
  ultimately show ?thesis using i by blast
qed

lemma find_newest_None:
  "List.find P (sortNewestFirst es) = None \<longleftrightarrow> (\<forall>e\<in>set es. \<not> P e)"
  by (auto simp: find_None_iff sortNewestFirst_def)

lemma hd_newest:
  assumes "sortNewestFirst es = m # rest"
  shows "m \<in> set es \<and> (\<forall>e\<in>set es. mtimeMs e \<le> mtimeMs m)"
proof -
  have "List.find (\<lambda>_. True) (sortNewestFirst es) = Some m"
    using assms by simp
  from find_newest[OF this] show ?thesis by simp
qed

lemma sortNewestFirst_Nil: "sortNewestFirst es = [] \<longleftrightarrow> es = []"
  by (metis length_0_conv length_sort sortNewestFirst_def)

lemma set_scanMatches: "e \<in> set (scanMatches out w) \<longleftrightarrow> candidate out w e"
  by (auto simp: scanMatches_def candidate_def requestedBase_def readdirSync_def sortNewestFirst_def Let_def)

lemma scanMatches_sorted: "\<exists>es. scanMatches out w = sortNewestFirst es \<and> set es = {e. candidate out w e}"
  by (rule exI[of _ "filter (\<lambda>e. isMediaContainer (name e))
              (filter (\<lambda>e. \<not> isPartial (name e))
                 (filter (\<lambda>e. startsWith (name e) (requestedBase out)) (readdirSync (dirname out) (files w))))"])
     (auto simp: scanMatches_def candidate_def requestedBase_def readdirSync_def Let_def)

lemma scan_find:
  assumes "List.find P (scanMatches out w) = Some m"
  shows "candidate out w m \<and> P m \<and> (\<forall>e. candidate out w e \<and> P e \<longrightarrow> mtimeMs e \<le> mtimeMs m)"
proof -
  obtain es where es: "scanMatches out w = sortNewestFirst es" "set es = {e. candidate out w e}"
    using scanMatches_sorted by blast
  from find_newest[of P es m] assms es show ?thesis by auto
qed

lemma scan_find_None:
  "List.find P (scanMatches out w) = None \<longleftrightarrow> (\<forall>e. candidate out w e \<longrightarrow> \<not> P e)"
  by (auto simp: find_None_iff set_scanMatches)

text \<open>The outcome of the scan, by cases.\<close>

lemma runAndResolveFile_scan:
  assumes "downloadFn url out w = (Inr u, w1)" and "\<not> existsSync out (files w1)"
  shows "runAndResolveFile downloadFn url out w =
     (if scanMatches out w1 = [] then
        (Inl (newError ''Download finished but output video file was not found.''), w1)
      else case orElse (List.find (\<lambda>e. isMp4 (name e) \<and> \<not> isIntermediate (name e)) (scanMatches out w1))
                       (List.find (\<lambda>e. \<not> isIntermediate (name e)) (scanMatches out w1)) of
             None \<Rightarrow> (Inl (newError ''Only intermediate stream files were found after download.''), w1)
           | Some m \<Rightarrow> (Inr (pathJoin (dirname out) (name m)), w1))"
  using assms by (simp add: runAndResolveFile_def Let_def)

lemma resolve_clean:
  assumes dl: "downloadFn url out w = (Inr u, w1)" and nx: "\<not> existsSync out (files w1)"
    and c0: "cleanCandidate out w1 c0"
  shows "\<exists>m. runAndResolveFile downloadFn url out w = (Inr (pathJoin (dirname out) (name m)), w1) \<and>
             cleanCandidate out w1 m \<and>
             (\<forall>c. cleanCandidate out w1 c \<longrightarrow>
                (isMp4 (name c) \<longrightarrow> isMp4 (name m)) \<and>
                (isMp4 (name c) \<or> \<not> isMp4 (name m) \<longrightarrow> mtimeMs c \<le> mtimeMs m))"
proof -
  let ?ms = "scanMatches out w1"
  let ?P = "\<lambda>e. isMp4 (name e) \<and> \<not> isIntermediate (name e)"
  let ?Q = "\<lambda>e. \<not> isIntermediate (name e)"
  note scan = runAndResolveFile_scan[of downloadFn url out w u w1, OF dl nx]
  have ne: "?ms \<noteq> []"
    using c0 set_scanMatches[of c0 out w1] by (auto simp: cleanCandidate_def)
  show ?thesis
  proof (cases "List.find ?P ?ms")
    case (Some m)
    from scan_find[OF Some] have m: "candidate out w1 m" "isMp4 (name m)" "\<not> isIntermediate (name m)"
      "\<forall>e. candidate out w1 e \<and> ?P e \<longrightarrow> mtimeMs e \<le> mtimeMs m" by auto
    have "runAndResolveFile downloadFn url out w = (Inr (pathJoin (dirname out) (name m)), w1)"
      using ne Some by (simp add: scan orElse_def)
    with m show ?thesis
      by (intro exI[of _ m]) (auto simp: cleanCandidate_def)
  next
    case None
    then have nomp4: "\<forall>e. candidate out w1 e \<longrightarrow> \<not> ?P e"
      by (simp add: scan_find_None)
    have "List.find ?Q ?ms \<noteq> None"
      using c0 by (auto simp: scan_find_None cleanCandidate_def)
    then obtain m where f: "List.find ?Q ?ms = Some m" by blast
    from scan_find[OF f] have m: "candidate out w1 m" "\<not> isIntermediate (name m)"
      "\<forall>e. candidate out w1 e \<and> ?Q e \<longrightarrow> mtimeMs e \<le> mtimeMs m" by auto
    have "runAndResolveFile downloadFn url out w = (Inr (pathJoin (dirname out) (name m)), w1)"
      using ne None f by (simp add: scan orElse_def)
    with m nomp4 show ?thesis
      by (intro exI[of _ m]) (auto simp: cleanCandidate_def)
  qed
qed

lemmas eval_defs = runAndResolveFile_def idleDownload_def exampleOutput_def worldWith_def
  mkvNewerThanMp4_def onlyIntermediates_def existsSync_def scanMatches_def readdirSync_def
  sortNewestFirst_def basenameExt_def extname_def startsWith_def endsWith_def isPartial_def
  isMediaContainer_def isMp4_def toLowerCase_def toLowerChar_def formatTagHere_def isDigit_def
  orElse_def pathJoin_def newError_def claimedNewestClean_def Let_def requestedBase_def
  candidate_def cleanCandidate_def prefixMatch_def resolveFileByPrefix_def

lemma resolveFileByPrefix_None:
  "resolveFileByPrefix p w = None \<longleftrightarrow> (\<forall>e. \<not> prefixMatch p w e)"
proof -
  let ?es = "filter (\<lambda>e. \<not> isPartial (name e))
                 (filter (\<lambda>e. startsWith (name e) (basename p)) (readdirSync (dirname p) (files w)))"
  have "resolveFileByPrefix p w = None \<longleftrightarrow> sortNewestFirst ?es = []"
    by (simp add: resolveFileByPrefix_def Let_def split: list.splits)
  also have "\<dots> \<longleftrightarrow> ?es = []" by (rule sortNewestFirst_Nil)
  also have "\<dots> \<longleftrightarrow> (\<forall>e. \<not> prefixMatch p w e)"
    by (auto simp: prefixMatch_def readdirSync_def filter_empty_conv)
  finally show ?thesis .
qed

lemma resolveFileByPrefix_Some:
  assumes "resolveFileByPrefix p w = Some r"
  shows "\<exists>m. r = pathJoin (dirname p) (name m) \<and> prefixMatch p w m \<and>
             (\<forall>e. prefixMatch p w e \<longrightarrow> mtimeMs e \<le> mtimeMs m)"
proof -
  let ?es = "filter (\<lambda>e. \<not> isPartial (name e))
                 (filter (\<lambda>e. startsWith (name e) (basename p)) (readdirSync (dirname p) (files w)))"
  from assms obtain m rest where s: "sortNewestFirst ?es = m # rest" and r: "r = pathJoin (dirname p) (name m)"
    by (auto simp: resolveFileByPrefix_def Let_def split: list.splits)
  have st: "set ?es = {e. prefixMatch p w e}"
    by (auto simp: prefixMatch_def readdirSync_def)
  from hd_newest[OF s] st have "prefixMatch p w m" "\<forall>e. prefixMatch p w e \<longrightarrow> mtimeMs e \<le> mtimeMs m"
    by auto
  with r show ?thesis by blast
qed

lemma resolve_only_intermediates:
  assumes dl: "downloadFn url out w = (Inr u, w1)" and nx: "\<not> existsSync out (files w1)"
    and c0: "candidate out w1 c0" and allint: "\<forall>c. candidate out w1 c \<longrightarrow> isIntermediate (name c)"
  shows "runAndResolveFile downloadFn url out w =
           (Inl (newError ''Only intermediate stream files were found after download.''), w1)"
proof -
  note scan = runAndResolveFile_scan[of downloadFn url out w u w1, OF dl nx]
  have ne: "scanMatches out w1 \<noteq> []"
    using c0 set_scanMatches[of c0 out w1] by auto
  have "List.find (\<lambda>e. isMp4 (name e) \<and> \<not> isIntermediate (name e)) (scanMatches out w1) = None"
    and "List.find (\<lambda>e. \<not> isIntermediate (name e)) (scanMatches out w1) = None"
    using allint by (simp_all add: scan_find_None)
  with ne show ?thesis by (simp add: scan orElse_def)
qed

lemma resolve_not_found:
  assumes dl: "downloadFn url out w = (Inr u, w1)" and nx: "\<not> existsSync out (files w1)"
    and none: "\<forall>c. \<not> candidate out w1 c"
  shows "runAndResolveFile downloadFn url out w =
           (Inl (newError ''Download finished but output video file was not found.''), w1)"
proof -
  note scan = runAndResolveFile_scan[of downloadFn url out w u w1, OF dl nx]
  have "\<forall>e. e \<notin> set (scanMatches out w1)"
    using none by (simp add: set_scanMatches)
  then have "scanMatches out w1 = []"
    by (cases "scanMatches out w1") auto
  then show ?thesis by (simp add: scan)
qed

text \<open>
  Claim C3. When the requested output path does not exist after the download, the scan
  of its directory answers with an entry named with the requested base that is not
  partial, not tagged as an intermediate stream and has the extension of a media
  container (\<^verbatim>\<open>.mp4\<close>, \<^verbatim>\<open>.mkv\<close>, \<^verbatim>\<open>.webm\<close>, \<^verbatim>\<open>.mov\<close>, \<^verbatim>\<open>.m4v\<close>), whenever there is
  one. It is an \<^verbatim>\<open>.mp4\<close> entry if any such entry is one, and no entry of the class it
  was taken from (the \<^verbatim>\<open>.mp4\<close> ones, or all of them when none is \<^verbatim>\<open>.mp4\<close>) was modified
  later.
\<close>

theorem scan_prefers_mp4_then_newest:
  assumes "downloadFn url outputPath w = (Inr u, w1)"
    and "\<not> existsSync outputPath (files w1)"
    and "cleanCandidate outputPath w1 c0"
  shows "\<exists>m. runAndResolveFile downloadFn url outputPath w
               = (Inr (pathJoin (dirname outputPath) (name m)), w1) \<and>
             m \<in> set (files w1 (dirname outputPath)) \<and>
             startsWith (name m) (requestedBase outputPath) \<and>
             \<not> isPartial (name m) \<and> \<not> isIntermediate (name m) \<and> isMediaContainer (name m) \<and>
             (\<forall>c. cleanCandidate outputPath w1 c \<longrightarrow>
                (isMp4 (name c) \<longrightarrow> isMp4 (name m)) \<and>
                (isMp4 (name c) \<or> \<not> isMp4 (name m) \<longrightarrow> mtimeMs c \<le> mtimeMs m))"
proof -
  from resolve_clean[of downloadFn url outputPath w u w1 c0, OF assms]
  obtain m where m: "runAndResolveFile downloadFn url outputPath w
               = (Inr (pathJoin (dirname outputPath) (name m)), w1)"
      "cleanCandidate outputPath w1 m"
      "\<forall>c. cleanCandidate outputPath w1 c \<longrightarrow>
                (isMp4 (name c) \<longrightarrow> isMp4 (name m)) \<and>
                (isMp4 (name c) \<or> \<not> isMp4 (name m) \<longrightarrow> mtimeMs c \<le> mtimeMs m)"
    by blast
  from m(2) have "m \<in> set (files w1 (dirname outputPath))" "startsWith (name m) (requestedBase outputPath)"
    "\<not> isPartial (name m)" "\<not> isIntermediate (name m)" "isMediaContainer (name m)"
    by (simp_all add: cleanCandidate_def candidate_def)
  with m(1,3) show ?thesis by blast
qed

theorem scan_prefers_mp4_then_newest_witness:
  "idleDownload ''u'' exampleOutput (worldWith mkvNewerThanMp4) = (Inr (), worldWith mkvNewerThanMp4) \<and>
   \<not> existsSync exampleOutput (files (worldWith mkvNewerThanMp4)) \<and>
   cleanCandidate exampleOutput (worldWith mkvNewerThanMp4)
     \<lparr>name = ''video_7_1_1000.mkv'', mtimeMs = 9, fsize = 100\<rparr> \<and>
   runAndResolveFile idleDownload ''u'' exampleOutput (worldWith mkvNewerThanMp4)
     = (Inr (Path ''downloads'' ''video_7_1_1000.old.mp4''), worldWith mkvNewerThanMp4) \<and>
   (\<exists>m. runAndResolveFile idleDownload ''u'' exampleOutput (worldWith mkvNewerThanMp4)
               = (Inr (pathJoin (dirname exampleOutput) (name m)), worldWith mkvNewerThanMp4) \<and>
         m \<in> set (files (worldWith mkvNewerThanMp4) (dirname exampleOutput)) \<and>
         startsWith (name m) (requestedBase exampleOutput) \<and>
         \<not> isPartial (name m) \<and> \<not> isIntermediate (name m) \<and> isMediaContainer (name m) \<and>
         (\<forall>c. cleanCandidate exampleOutput (worldWith mkvNewerThanMp4) c \<longrightarrow>
            (isMp4 (name c) \<longrightarrow> isMp4 (name m)) \<and>
            (isMp4 (name c) \<or> \<not> isMp4 (name m) \<longrightarrow> mtimeMs c \<le> mtimeMs m)))"
proof -
  have h1: "idleDownload ''u'' exampleOutput (worldWith mkvNewerThanMp4) = (Inr (), worldWith mkvNewerThanMp4)"
    by (simp add: idleDownload_def)
  have h2: "\<not> existsSync exampleOutput (files (worldWith mkvNewerThanMp4))"
    by (simp add: eval_defs)
  have h3: "cleanCandidate exampleOutput (worldWith mkvNewerThanMp4)
     \<lparr>name = ''video_7_1_1000.mkv'', mtimeMs = 9, fsize = 100\<rparr>"
    by (simp add: eval_defs)
  have r: "runAndResolveFile idleDownload ''u'' exampleOutput (worldWith mkvNewerThanMp4)
     = (Inr (Path ''downloads'' ''video_7_1_1000.old.mp4''), worldWith mkvNewerThanMp4)"
    by (simp add: eval_defs)
  note concl = scan_prefers_mp4_then_newest[of idleDownload "''u''" exampleOutput
      "worldWith mkvNewerThanMp4" "()" "worldWith mkvNewerThanMp4", OF h1 h2 h3]
  show ?thesis
    by (rule conjI[OF h1 conjI[OF h2 conjI[OF h3 conjI[OF r concl]]]])
qed

text \<open>
  Claim C2, as amended. After a download that leaves the requested output path missing,
  \<^verbatim>\<open>runAndResolveFile\<close> looks at the entries named with the requested base that are not
  partial and have the extension of a media container. If one of them is not an
  intermediate stream file it returns such an entry: the most recently modified
  \<^verbatim>\<open>.mp4\<close> one if there is one, otherwise the most recently modified one. If there are
  such entries and all are intermediate it raises the error about intermediate stream
  files; if there are none it raises the error about the missing output.
  \<^verbatim>\<open>resolveFileByPrefix\<close> returns the most recently modified entry that starts with the
  prefix and is not partial, intermediate or not, and \<^verbatim>\<open>null\<close> exactly when there is none.
\<close>

theorem resolver_outcomes:
  assumes dl: "downloadFn url outputPath w = (Inr u, w1)"
    and nx: "\<not> existsSync outputPath (files w1)"
  shows
   "(\<forall>c0. cleanCandidate outputPath w1 c0 \<longrightarrow>
      (\<exists>m. runAndResolveFile downloadFn url outputPath w
              = (Inr (pathJoin (dirname outputPath) (name m)), w1) \<and>
           cleanCandidate outputPath w1 m \<and>
           (\<forall>c. cleanCandidate outputPath w1 c \<longrightarrow>
              (isMp4 (name c) \<longrightarrow> isMp4 (name m)) \<and>
              (isMp4 (name c) \<or> \<not> isMp4 (name m) \<longrightarrow> mtimeMs c \<le> mtimeMs m)))) \<and>
    ((\<exists>c. candidate outputPath w1 c) \<and> (\<forall>c. candidate outputPath w1 c \<longrightarrow> isIntermediate (name c)) \<longrightarrow>
       runAndResolveFile downloadFn url outputPath w
         = (Inl (newError ''Only intermediate stream files were found after download.''), w1)) \<and>
    ((\<forall>c. \<not> candidate outputPath w1 c) \<longrightarrow>
       runAndResolveFile downloadFn url outputPath w
         = (Inl (newError ''Download finished but output video file was not found.''), w1)) \<and>
    ((resolveFileByPrefix prefixPath w1 = None) = (\<forall>e. \<not> prefixMatch prefixPath w1 e)) \<and>
    (\<forall>r. resolveFileByPrefix prefixPath w1 = Some r \<longrightarrow>
       (\<exists>m. r = pathJoin (dirname prefixPath) (name m) \<and> prefixMatch prefixPath w1 m \<and>
            (\<forall>e. prefixMatch prefixPath w1 e \<longrightarrow> mtimeMs e \<le> mtimeMs m)))"
proof (intro conjI allI impI)
  fix c0 assume "cleanCandidate outputPath w1 c0"
  from resolve_clean[of downloadFn url outputPath w u w1 c0, OF dl nx this]
  show "\<exists>m. runAndResolveFile downloadFn url outputPath w
              = (Inr (pathJoin (dirname outputPath) (name m)), w1) \<and>
           cleanCandidate outputPath w1 m \<and>
           (\<forall>c. cleanCandidate outputPath w1 c \<longrightarrow>
              (isMp4 (name c) \<longrightarrow> isMp4 (name m)) \<and>
              (isMp4 (name c) \<or> \<not> isMp4 (name m) \<longrightarrow> mtimeMs c \<le> mtimeMs m))" .
next
  assume a: "(\<exists>c. candidate outputPath w1 c) \<and> (\<forall>c. candidate outputPath w1 c \<longrightarrow> isIntermediate (name c))"
  then obtain c where c: "candidate outputPath w1 c" by (elim conjE exE)
  from a have "\<forall>c. candidate outputPath w1 c \<longrightarrow> isIntermediate (name c)" by (rule conjunct2)
  from resolve_only_intermediates[of downloadFn url outputPath w u w1 c, OF dl nx c this]
  show "runAndResolveFile downloadFn url outputPath w
         = (Inl (newError ''Only intermediate stream files were found after download.''), w1)" .
next
  assume "\<forall>c. \<not> candidate outputPath w1 c"
  from resolve_not_found[of downloadFn url outputPath w u w1, OF dl nx this]
  show "runAndResolveFile downloadFn url outputPath w
         = (Inl (newError ''Download finished but output video file was not found.''), w1)" .
next
  show "(resolveFileByPrefix prefixPath w1 = None) = (\<forall>e. \<not> prefixMatch prefixPath w1 e)"
    by (rule resolveFileByPrefix_None)
next
  fix r assume "resolveFileByPrefix prefixPath w1 = Some r"
  then show "\<exists>m. r = pathJoin (dirname prefixPath) (name m) \<and> prefixMatch prefixPath w1 m \<and>
            (\<forall>e. prefixMatch prefixPath w1 e \<longrightarrow> mtimeMs e \<le> mtimeMs m)"
    by (rule resolveFileByPrefix_Some)
qed

theorem resolver_outcomes_witness:
  "\<not> existsSync exampleOutput (files (worldWith onlyIntermediates)) \<and>
   candidate exampleOutput (worldWith onlyIntermediates)
     \<lparr>name = ''video_7_1_1000.f137.mp4'', mtimeMs = 5, fsize = 100\<rparr> \<and>
   runAndResolveFile idleDownload ''u'' exampleOutput (worldWith onlyIntermediates)
     = (Inl (newError ''Only intermediate stream files were found after download.''),
        worldWith onlyIntermediates) \<and>
   runAndResolveFile idleDownload ''u'' exampleOutput (worldWith [])
     = (Inl (newError ''Download finished but output video file was not found.''), worldWith []) \<and>
   resolveFileByPrefix (Path ''downloads'' ''video_7_1_1000'') (worldWith onlyIntermediates)
     = Some (Path ''downloads'' ''video_7_1_1000.f251.webm'') \<and>
   prefixMatch (Path ''downloads'' ''video_7_1_1000'') (worldWith onlyIntermediates)
     \<lparr>name = ''video_7_1_1000.f251.webm'', mtimeMs = 9, fsize = 100\<rparr>"
proof -
  let ?w = "worldWith onlyIntermediates"
  have h1: "idleDownload ''u'' exampleOutput ?w = (Inr (), ?w)"
    by (simp add: idleDownload_def)
  have h2: "\<not> existsSync exampleOutput (files ?w)"
    by (simp add: eval_defs)
  have c: "candidate exampleOutput ?w \<lparr>name = ''video_7_1_1000.f137.mp4'', mtimeMs = 5, fsize = 100\<rparr>"
    by (simp add: eval_defs)
  have allint: "\<forall>c. candidate exampleOutput ?w c \<longrightarrow> isIntermediate (name c)"
    by (auto simp: eval_defs)
  note t = resolver_outcomes[of idleDownload "''u''" exampleOutput ?w "()" ?w
      "Path ''downloads'' ''video_7_1_1000''", OF h1 h2]
  from t c allint have r1: "runAndResolveFile idleDownload ''u'' exampleOutput ?w
     = (Inl (newError ''Only intermediate stream files were found after download.''), ?w)"
    by blast
  have e1: "idleDownload ''u'' exampleOutput (worldWith []) = (Inr (), worldWith [])"
    by (simp add: idleDownload_def)
  have e2: "\<not> existsSync exampleOutput (files (worldWith []))"
    by (simp add: eval_defs)
  have e3: "\<forall>c. \<not> candidate exampleOutput (worldWith []) c"
    by (simp add: eval_defs)
  note t0 = resolver_outcomes[of idleDownload "''u''" exampleOutput "worldWith []" "()" "worldWith []"
      "Path ''downloads'' ''video_7_1_1000''", OF e1 e2]
  from t0 e3 have r2: "runAndResolveFile idleDownload ''u'' exampleOutput (worldWith [])
     = (Inl (newError ''Download finished but output video file was not found.''), worldWith [])"
    by blast
  have r3: "resolveFileByPrefix (Path ''downloads'' ''video_7_1_1000'') ?w
     = Some (Path ''downloads'' ''video_7_1_1000.f251.webm'')"
    by (simp add: eval_defs)
  have r4: "prefixMatch (Path ''downloads'' ''video_7_1_1000'') ?w
     \<lparr>name = ''video_7_1_1000.f251.webm'', mtimeMs = 9, fsize = 100\<rparr>"
    by (simp add: eval_defs)
  show ?thesis
    by (rule conjI[OF h2 conjI[OF c conjI[OF r1 conjI[OF r2 conjI[OF r3 r4]]]]])
qed

text \<open>
  The claim as stated fails: with a newer \<^verbatim>\<open>.mkv\<close> and an older \<^verbatim>\<open>.mp4\<close> entry, both
  complete and neither intermediate, the older \<^verbatim>\<open>.mp4\<close> entry is returned.
\<close>

theorem newest_clean_entry_counterexample:
  "runAndResolveFile idleDownload ''u'' exampleOutput (worldWith mkvNewerThanMp4)
     = (Inr (Path ''downloads'' ''video_7_1_1000.old.mp4''), worldWith mkvNewerThanMp4) \<and>
   files (worldWith mkvNewerThanMp4) (dirname exampleOutput) = mkvNewerThanMp4 \<and>
   \<not> existsSync exampleOutput (files (worldWith mkvNewerThanMp4)) \<and>
   \<not> claimedNewestClean (requestedBase exampleOutput) mkvNewerThanMp4 ''video_7_1_1000.old.mp4'' \<and>
   claimedNewestClean (requestedBase exampleOutput) mkvNewerThanMp4 ''video_7_1_1000.mkv''"
  by (simp add: eval_defs)

subsection \<open>Cleaning up and merging\<close>

lemma safeDelete_files:
  "files (safeDelete p w) = (files w)(dirname p := filter (\<lambda>e. name e \<noteq> basename p) (files w (dirname p)))"
proof (cases "existsSync p (files w)")
  case True
  then show ?thesis by (simp add: safeDelete_def unlinkSync_def pathString_def)
next
  case False
  then have "filter (\<lambda>e. name e \<noteq> basename p) (files w (dirname p)) = files w (dirname p)"
    by (force simp: existsSync_def filter_id_conv)
  with False show ?thesis by (simp add: safeDelete_def)
qed

lemma safeDelete_calls: "calls (safeDelete p w) = calls w"
  by (simp add: safeDelete_def)

lemma safeDelete_ext: "ext (safeDelete p w) = ext w"
  by (simp add: safeDelete_def)

lemma safeDelete_gone: "\<not> existsSync p (files (safeDelete p w))"
  by (auto simp: safeDelete_files existsSync_def)

lemma sweep_files:
  "files (foldl (sweepStep dir base) w es) dir
     = filter (\<lambda>x. \<not> (startsWith (name x) base \<and> name x \<in> name ` set es)) (files w dir)"
proof (induction es arbitrary: w)
  case Nil
  show ?case by simp
next
  case (Cons e es)
  have step: "files (sweepStep dir base w e) dir
      = filter (\<lambda>x. \<not> (startsWith (name x) base \<and> name x = name e)) (files w dir)"
  proof (cases "startsWith (name e) base")
    case True
    then show ?thesis
      by (auto simp: sweepStep_def safeDelete_files pathJoin_def intro: filter_cong)
  next
    case False
    then have "filter (\<lambda>x. \<not> (startsWith (name x) base \<and> name x = name e)) (files w dir) = files w dir"
      by (auto simp: filter_id_conv)
    with False show ?thesis by (simp add: sweepStep_def)
  qed
  show ?case
    by (simp add: Cons.IH step) (auto intro: filter_cong)
qed

lemma sweep_calls: "calls (foldl (sweepStep dir base) w es) = calls w"
  by (induction es arbitrary: w) (simp_all add: sweepStep_def safeDelete_calls)

lemma sweep_ext: "ext (foldl (sweepStep dir base) w es) = ext w"
  by (induction es arbitrary: w) (simp_all add: sweepStep_def safeDelete_ext)

lemma cleanupByPrefix_sweep:
  "cleanupByPrefix cfg p w
     = foldl (sweepStep (DOWNLOADS_DIR cfg) (basename p)) w (files w (DOWNLOADS_DIR cfg))"
  by (simp add: cleanupByPrefix_def sweepStep_def[abs_def] readdirSync_def Let_def)

lemma cleanupByPrefix_files:
  "files (cleanupByPrefix cfg p w) (DOWNLOADS_DIR cfg)
     = filter (\<lambda>x. \<not> startsWith (name x) (basename p)) (files w (DOWNLOADS_DIR cfg))"
  by (simp add: cleanupByPrefix_sweep sweep_files) (auto intro: filter_cong)

lemma cleanupByPrefix_calls: "calls (cleanupByPrefix cfg p w) = calls w"
  by (simp add: cleanupByPrefix_sweep sweep_calls)

lemma cleanupByPrefix_ext: "ext (cleanupByPrefix cfg p w) = ext w"
  by (simp add: cleanupByPrefix_sweep sweep_ext)

lemma downloadHighQualityMerged_swept:
  assumes "downloadHighQualityMerged E cfg url outputPath w = (r, w')"
  shows "\<forall>e\<in>set (files w' (DOWNLOADS_DIR cfg)).
           \<not> startsWith (name e) (basename (videoPrefix E outputPath w)) \<and>
           \<not> startsWith (name e) (basename (audioPrefix E outputPath w))"
proof -
  obtain r1 w1 where t: "highQualityTry E cfg url outputPath (videoPrefix E outputPath w)
      (audioPrefix E outputPath w) w = (r1, w1)"
    by (cases "highQualityTry E cfg url outputPath (videoPrefix E outputPath w)
      (audioPrefix E outputPath w) w")
  with assms have "w' = cleanupByPrefix cfg (audioPrefix E outputPath w)
      (cleanupByPrefix cfg (videoPrefix E outputPath w) w1)"
    by (simp add: downloadHighQualityMerged_def Let_def)
  then show ?thesis
    by (simp add: cleanupByPrefix_files)
qed


lemmas run_defs = encoderMissing_def offline_def exampleYtDlp_def exampleConfig_def jobOutput_def
  buildOutputPath_def spawnEnoent_def networkUnreachable_def worldWith_def
  downloadHighQualityMerged_def highQualityTry_def downloadSingleStream_def mergeWithFfmpeg_def
  resolveFileByPrefix_def ytDlp_def spawn_def videoPrefix_def audioPrefix_def tempPrefix_def
  pathAppend_def pathString_def pathJoin_def videoFormat_def audioFormat_def progressiveFormat_def
  ffmpegLocation_def ffmpegArgs_def cleanupByPrefix_def safeDelete_def existsSync_def unlinkSync_def
  readdirSync_def sortNewestFirst_def startsWith_def endsWith_def isPartial_def toLowerCase_def
  toLowerChar_def showInt_def showNat.simps digitChar_def newError_def Let_def


lemma dirname_buildOutputPath: "dirname (buildOutputPath cfg chatId messageId now) = DOWNLOADS_DIR cfg"
  by (simp add: buildOutputPath_def pathJoin_def)

text \<open>
  Claim C6. Whatever the downloader and the encoder do, and whether
  \<^verbatim>\<open>downloadHighQualityMerged\<close> returns or fails, its outcome is that of its \<^verbatim>\<open>try\<close>
  block, and when it ends the download directory holds no entry whose name starts with
  the job's video-stream prefix or with its audio-stream prefix. Both prefixes lie in the
  directory of the output path, which for every path the program builds is the download
  directory. (Removing an existing entry does not fail in this model of the file system.)
\<close>

theorem temp_streams_always_swept:
  "downloadHighQualityMerged E cfg url outputPath w = (r, w') \<longrightarrow>
     r = fst (highQualityTry E cfg url outputPath (videoPrefix E outputPath w)
                (audioPrefix E outputPath w) w) \<and>
     (\<forall>e\<in>set (files w' (DOWNLOADS_DIR cfg)).
        \<not> startsWith (name e) (basename (videoPrefix E outputPath w)) \<and>
        \<not> startsWith (name e) (basename (audioPrefix E outputPath w))) \<and>
     dirname (videoPrefix E outputPath w) = dirname outputPath \<and>
     dirname (audioPrefix E outputPath w) = dirname outputPath \<and>
     dirname (buildOutputPath cfg chatId messageId now) = DOWNLOADS_DIR cfg"
proof
  assume a: "downloadHighQualityMerged E cfg url outputPath w = (r, w')"
  then have "r = fst (highQualityTry E cfg url outputPath (videoPrefix E outputPath w)
                (audioPrefix E outputPath w) w)"
    by (auto simp: downloadHighQualityMerged_def Let_def split: prod.splits)
  moreover note downloadHighQualityMerged_swept[OF a]
  moreover have "dirname (videoPrefix E outputPath w) = dirname outputPath"
    and "dirname (audioPrefix E outputPath w) = dirname outputPath"
    by (simp_all add: videoPrefix_def audioPrefix_def tempPrefix_def pathAppend_def)
  ultimately show "r = fst (highQualityTry E cfg url outputPath (videoPrefix E outputPath w)
                (audioPrefix E outputPath w) w) \<and>
     (\<forall>e\<in>set (files w' (DOWNLOADS_DIR cfg)).
        \<not> startsWith (name e) (basename (videoPrefix E outputPath w)) \<and>
        \<not> startsWith (name e) (basename (audioPrefix E outputPath w))) \<and>
     dirname (videoPrefix E outputPath w) = dirname outputPath \<and>
     dirname (audioPrefix E outputPath w) = dirname outputPath \<and>
     dirname (buildOutputPath cfg chatId messageId now) = DOWNLOADS_DIR cfg"
    by (simp add: dirname_buildOutputPath)
qed

theorem temp_streams_always_swept_witness:
  "fst (downloadHighQualityMerged offline exampleConfig ''u'' jobOutput (worldWith []))
     = Inl networkUnreachable \<and>
   files (snd (highQualityTry offline exampleConfig ''u'' jobOutput
                 (videoPrefix offline jobOutput (worldWith []))
                 (audioPrefix offline jobOutput (worldWith [])) (worldWith []))) ''downloads''
     = [\<lparr>name = ''video_7_1_5.mp4.hq_5.video.webm.part'', mtimeMs = 1, fsize = 10\<rparr>] \<and>
   files (snd (downloadHighQualityMerged offline exampleConfig ''u'' jobOutput (worldWith [])))
     ''downloads'' = [] \<and>
   fst (downloadHighQualityMerged (encoderMissing 60) exampleConfig ''u'' jobOutput (worldWith []))
     = Inl spawnEnoent \<and>
   files (snd (downloadHighQualityMerged (encoderMissing 60) exampleConfig ''u'' jobOutput (worldWith [])))
     ''downloads'' = []"
  using temp_streams_always_swept[of offline exampleConfig "''u''" jobOutput "worldWith []"
      "Inl networkUnreachable"
      "snd (downloadHighQualityMerged offline exampleConfig ''u'' jobOutput (worldWith []))" 7 1 5]
  by (simp add: run_defs)

lemma mergeWithFfmpeg_unfold:
  assumes "spawn E (if FFMPEG_PATH cfg \<noteq> [] then FFMPEG_PATH cfg else ''ffmpeg'')
             (ffmpegArgs videoPath audioPath outputPath) (safeDelete outputPath w) = (outcome, w2)"
  shows "mergeWithFfmpeg E cfg videoPath audioPath outputPath w =
     (case outcome of
        ProcError err \<Rightarrow> (Inl err, w2)
      | ProcClose code stderr \<Rightarrow>
          if code = Some 0 \<and> existsSync outputPath (files w2) then (Inr (), w2)
          else (Inl (newError (if stderr \<noteq> [] then stderr
                               else ''ffmpeg exited with code '' @ showCode code)), w2))"
  using assms by (simp add: mergeWithFfmpeg_def Let_def split: proc_result.splits)

text \<open>
  Claim C5, as amended. \<^verbatim>\<open>mergeWithFfmpeg\<close> starts the encoder after removing any file at
  the output path. It succeeds exactly when the process closes with exit code zero and
  the output file exists then. When the process closes otherwise, it fails with the text
  the process wrote to its standard error, or with \<^verbatim>\<open>ffmpeg exited with code <n>\<close> when it
  wrote none. When the process reports an \<^verbatim>\<open>error\<close> event first (it could not be
  started), it fails with that error.
\<close>

theorem mergeWithFfmpeg_outcomes:
  assumes sp: "spawn E (if FFMPEG_PATH cfg \<noteq> [] then FFMPEG_PATH cfg else ''ffmpeg'')
             (ffmpegArgs videoPath audioPath outputPath) (safeDelete outputPath w) = (outcome, w2)"
  shows "\<not> existsSync outputPath (files (safeDelete outputPath w)) \<and>
     snd (mergeWithFfmpeg E cfg videoPath audioPath outputPath w) = w2 \<and>
     ((fst (mergeWithFfmpeg E cfg videoPath audioPath outputPath w) = Inr ()) =
        ((\<exists>stderr. outcome = ProcClose (Some 0) stderr) \<and> existsSync outputPath (files w2))) \<and>
     (\<forall>code stderr. outcome = ProcClose code stderr \<and>
          \<not> (code = Some 0 \<and> existsSync outputPath (files w2)) \<longrightarrow>
        fst (mergeWithFfmpeg E cfg videoPath audioPath outputPath w) =
          Inl (newError (if stderr \<noteq> [] then stderr
                         else ''ffmpeg exited with code '' @ showCode code))) \<and>
     (\<forall>err. outcome = ProcError err \<longrightarrow>
        fst (mergeWithFfmpeg E cfg videoPath audioPath outputPath w) = Inl err)"
proof -
  note u = mergeWithFfmpeg_unfold[OF sp]
  have "\<not> existsSync outputPath (files (safeDelete outputPath w))"
    by (rule safeDelete_gone)
  moreover have "snd (mergeWithFfmpeg E cfg videoPath audioPath outputPath w) = w2"
    by (simp add: u split: proc_result.splits)
  moreover have "(fst (mergeWithFfmpeg E cfg videoPath audioPath outputPath w) = Inr ()) =
        ((\<exists>stderr. outcome = ProcClose (Some 0) stderr) \<and> existsSync outputPath (files w2))"
    by (cases outcome) (auto simp: u)
  moreover have "\<forall>code stderr. outcome = ProcClose code stderr \<and>
          \<not> (code = Some 0 \<and> existsSync outputPath (files w2)) \<longrightarrow>
        fst (mergeWithFfmpeg E cfg videoPath audioPath outputPath w) =
          Inl (newError (if stderr \<noteq> [] then stderr
                         else ''ffmpeg exited with code '' @ showCode code))"
    by (auto simp: u)
  moreover have "\<forall>err. outcome = ProcError err \<longrightarrow>
        fst (mergeWithFfmpeg E cfg videoPath audioPath outputPath w) = Inl err"
    by (simp add: u)
  ultimately show ?thesis by blast
qed

lemmas merge_defs = encoderEnds_def videoStream_def audioStream_def mergedFile_def claimedMergeFailure_def
  showCode_def

theorem mergeWithFfmpeg_outcomes_witness:
  "fst (mergeWithFfmpeg (encoderEnds (ProcClose (Some 0) ''frame= 10'') [mergedFile]) exampleConfig
          videoStream audioStream jobOutput (worldWith [])) = Inr () \<and>
   fst (mergeWithFfmpeg (encoderEnds (ProcClose (Some 1) ''Conversion failed!'') [mergedFile]) exampleConfig
          videoStream audioStream jobOutput (worldWith [])) = Inl (newError ''Conversion failed!'') \<and>
   fst (mergeWithFfmpeg (encoderEnds (ProcClose (Some 1) []) []) exampleConfig
          videoStream audioStream jobOutput (worldWith [])) = Inl (newError ''ffmpeg exited with code 1'') \<and>
   fst (mergeWithFfmpeg (encoderEnds (ProcClose None []) []) exampleConfig
          videoStream audioStream jobOutput (worldWith [])) = Inl (newError ''ffmpeg exited with code null'') \<and>
   existsSync jobOutput (files (worldWith [mergedFile])) \<and>
   fst (mergeWithFfmpeg (encoderEnds (ProcClose (Some 0) []) []) exampleConfig
          videoStream audioStream jobOutput (worldWith [mergedFile]))
     = Inl (newError ''ffmpeg exited with code 0'') \<and>
   fst (mergeWithFfmpeg (encoderEnds (ProcError spawnEnoent) []) exampleConfig
          videoStream audioStream jobOutput (worldWith [])) = Inl spawnEnoent"
proof -
  let ?run = "\<lambda>outcome written es.
     spawn (encoderEnds outcome written)
       (if FFMPEG_PATH exampleConfig \<noteq> [] then FFMPEG_PATH exampleConfig else ''ffmpeg'')
       (ffmpegArgs videoStream audioStream jobOutput) (safeDelete jobOutput (worldWith es))"
  have sp: "?run outcome written es = (fst (?run outcome written es), snd (?run outcome written es))"
    for outcome written es by simp
  have files_after: "files (snd (?run outcome written es)) ''downloads''
      = written @ filter (\<lambda>e. name e \<noteq> ''video_7_1_5.mp4'') es"
    and out_after: "fst (?run outcome written es) = outcome" for outcome written es
    by (simp_all add: spawn_def encoderEnds_def encoderMissing_def safeDelete_files safeDelete_ext
        jobOutput_def buildOutputPath_def pathJoin_def exampleConfig_def worldWith_def
        showInt_def showNat.simps digitChar_def)
  have ex: "existsSync jobOutput (files (snd (?run outcome written es)))
      = (''video_7_1_5.mp4'' \<in> name ` set written)" for outcome written es
    using files_after[of outcome written es]
    by (auto simp: existsSync_def jobOutput_def buildOutputPath_def pathJoin_def exampleConfig_def
        showInt_def showNat.simps digitChar_def)
  have a: "fst (mergeWithFfmpeg (encoderEnds (ProcClose (Some 0) ''frame= 10'') [mergedFile]) exampleConfig
          videoStream audioStream jobOutput (worldWith [])) = Inr ()"
    using mergeWithFfmpeg_outcomes[OF sp[of "ProcClose (Some 0) ''frame= 10''" "[mergedFile]" "[]"]]
    by (simp add: out_after ex mergedFile_def)
  have b: "fst (mergeWithFfmpeg (encoderEnds (ProcClose (Some 1) ''Conversion failed!'') [mergedFile]) exampleConfig
          videoStream audioStream jobOutput (worldWith [])) = Inl (newError ''Conversion failed!'')"
    using mergeWithFfmpeg_outcomes[OF sp[of "ProcClose (Some 1) ''Conversion failed!''" "[mergedFile]" "[]"]]
    by (simp add: out_after ex mergedFile_def)
  have c: "fst (mergeWithFfmpeg (encoderEnds (ProcClose (Some 1) []) []) exampleConfig
          videoStream audioStream jobOutput (worldWith [])) = Inl (newError ''ffmpeg exited with code 1'')"
    using mergeWithFfmpeg_outcomes[OF sp[of "ProcClose (Some 1) []" "[]" "[]"]]
    by (simp add: out_after ex showCode_def showInt_def showNat.simps digitChar_def)
  have d: "fst (mergeWithFfmpeg (encoderEnds (ProcClose None []) []) exampleConfig
          videoStream audioStream jobOutput (worldWith [])) = Inl (newError ''ffmpeg exited with code null'')"
    using mergeWithFfmpeg_outcomes[OF sp[of "ProcClose None []" "[]" "[]"]]
    by (simp add: out_after ex showCode_def)
  have e0: "existsSync jobOutput (files (worldWith [mergedFile]))"
    by (simp add: run_defs merge_defs)
  have e: "fst (mergeWithFfmpeg (encoderEnds (ProcClose (Some 0) []) []) exampleConfig
          videoStream audioStream jobOutput (worldWith [mergedFile]))
     = Inl (newError ''ffmpeg exited with code 0'')"
    using mergeWithFfmpeg_outcomes[OF sp[of "ProcClose (Some 0) []" "[]" "[mergedFile]"]]
    by (simp add: out_after ex showCode_def showInt_def showNat.simps digitChar_def)
  have f: "fst (mergeWithFfmpeg (encoderEnds (ProcError spawnEnoent) []) exampleConfig
          videoStream audioStream jobOutput (worldWith [])) = Inl spawnEnoent"
    using mergeWithFfmpeg_outcomes[OF sp[of "ProcError spawnEnoent" "[]" "[]"]]
    by (simp add: out_after)
  show ?thesis
    by (rule conjI[OF a conjI[OF b conjI[OF c conjI[OF d conjI[OF e0 conjI[OF e f]]]]]])
qed

text \<open>
  The claim as stated fails where the encoder cannot be started: the failure is the error
  of the \<^verbatim>\<open>error\<close> event, which is neither text of the standard error (none was written)
  nor the generic message.
\<close>

theorem merge_failure_text_counterexample:
  "fst (mergeWithFfmpeg (encoderMissing 0) exampleConfig videoStream audioStream jobOutput (worldWith []))
     = Inl spawnEnoent \<and>
   calls (snd (mergeWithFfmpeg (encoderMissing 0) exampleConfig videoStream audioStream jobOutput
                 (worldWith [])))
     = [SpawnCall ''ffmpeg'' (ffmpegArgs videoStream audioStream jobOutput)] \<and>
   spawnEnoent \<noteq> claimedMergeFailure [] None \<and>
   spawnEnoent \<noteq> claimedMergeFailure [] (Some (- 2)) \<and>
   \<not> startsWith (err_message spawnEnoent) ''ffmpeg exited with code ''"
  by (simp add: run_defs merge_defs)

subsection \<open>The orchestrator\<close>

lemma formats_distinct:
  "videoFormat cfg \<noteq> progressiveFormat cfg"
  "audioFormat \<noteq> progressiveFormat cfg"
  "audioFormat \<noteq> videoFormat cfg"
  by (simp_all add: videoFormat_def progressiveFormat_def audioFormat_def)

lemma ytDlp_calls: "calls (snd (ytDlp E url options w)) = calls w @ [YtDlpCall url options]"
  by (simp add: ytDlp_def split: prod.splits)

lemma spawn_calls: "calls (snd (spawn E bin args w)) = calls w @ [SpawnCall bin args]"
  by (simp add: spawn_def split: prod.splits)

lemma downloadSingleStream_calls:
  "\<exists>options. opt_format options = fmt \<and>
     calls (snd (downloadSingleStream E cfg url fmt p w)) = calls w @ [YtDlpCall url options]"
proof -
  let ?o = "\<lparr>opt_format = fmt, opt_output = pathString p @ ''.%(ext)s'',
              opt_concurrentFragments = YTDLP_CONCURRENT_FRAGMENTS cfg, opt_noWarnings = True,
              opt_noPlaylist = True, opt_ffmpegLocation = ffmpegLocation cfg\<rparr>"
  have "snd (downloadSingleStream E cfg url fmt p w) = snd (ytDlp E url ?o w)"
    by (simp add: downloadSingleStream_def split: prod.splits sum.splits option.splits)
  then have "calls (snd (downloadSingleStream E cfg url fmt p w)) = calls w @ [YtDlpCall url ?o]"
    by (simp add: ytDlp_calls)
  moreover have "opt_format ?o = fmt" by simp
  ultimately show ?thesis by blast
qed

lemma mergeWithFfmpeg_calls:
  "\<exists>bin args. calls (snd (mergeWithFfmpeg E cfg v a out w)) = calls w @ [SpawnCall bin args]"
proof -
  let ?bin = "if FFMPEG_PATH cfg \<noteq> [] then FFMPEG_PATH cfg else ''ffmpeg''"
  have "snd (mergeWithFfmpeg E cfg v a out w) = snd (spawn E ?bin (ffmpegArgs v a out) (safeDelete out w))"
    by (simp add: mergeWithFfmpeg_def Let_def split: prod.splits proc_result.splits)
  then have "calls (snd (mergeWithFfmpeg E cfg v a out w)) = calls w @ [SpawnCall ?bin (ffmpegArgs v a out)]"
    by (simp add: spawn_calls safeDelete_calls)
  then show ?thesis by blast
qed

lemma quiet_audio: "opt_format options = audioFormat \<Longrightarrow> quiet cfg (YtDlpCall url options)"
  using formats_distinct[of cfg]
  by (simp add: quiet_def isToolCall_def isProgressiveAttempt_def isHighQualityAttempt_def)

lemma quiet_spawn: "quiet cfg (SpawnCall bin args)"
  by (simp add: quiet_def isToolCall_def isProgressiveAttempt_def isHighQualityAttempt_def)

lemma highQualityTry_calls:
  "\<exists>o1 rest. opt_format o1 = videoFormat cfg \<and>
     calls (snd (highQualityTry E cfg url out vp ap w)) = calls w @ YtDlpCall url o1 # rest \<and>
     list_all (quiet cfg) rest"
proof -
  obtain r1 w1 where d1: "downloadSingleStream E cfg url (videoFormat cfg) vp w = (r1, w1)"
    by (cases "downloadSingleStream E cfg url (videoFormat cfg) vp w")
  from downloadSingleStream_calls[of "videoFormat cfg" E cfg url vp w] d1
  obtain o1 where o1: "opt_format o1 = videoFormat cfg" "calls w1 = calls w @ [YtDlpCall url o1]"
    by auto
  show ?thesis
  proof (cases r1)
    case (Inl e)
    with d1 have "snd (highQualityTry E cfg url out vp ap w) = w1"
      by (simp add: highQualityTry_def)
    with o1 show ?thesis by (intro exI[of _ o1] exI[of _ "[]"]) simp
  next
    case (Inr videoPath)
    obtain r2 w2 where d2: "downloadSingleStream E cfg url audioFormat ap w1 = (r2, w2)"
      by (cases "downloadSingleStream E cfg url audioFormat ap w1")
    from downloadSingleStream_calls[of audioFormat E cfg url ap w1] d2
    obtain o2 where o2: "opt_format o2 = audioFormat" "calls w2 = calls w1 @ [YtDlpCall url o2]"
      by auto
    show ?thesis
    proof (cases r2)
      case (Inl e)
      with d1 d2 Inr have "snd (highQualityTry E cfg url out vp ap w) = w2"
        by (simp add: highQualityTry_def)
      with o1 o2 show ?thesis
        by (intro exI[of _ o1] exI[of _ "[YtDlpCall url o2]"]) (simp add: quiet_audio)
    next
      case (Inr audioPath)
      from mergeWithFfmpeg_calls[of E cfg videoPath audioPath out w2]
      obtain bin args where m: "calls (snd (mergeWithFfmpeg E cfg videoPath audioPath out w2))
          = calls w2 @ [SpawnCall bin args]" by blast
      from d1 d2 Inr \<open>r1 = Inr videoPath\<close>
      have "snd (highQualityTry E cfg url out vp ap w) = snd (mergeWithFfmpeg E cfg videoPath audioPath out w2)"
        by (simp add: highQualityTry_def)
      with o1 o2 m show ?thesis
        by (intro exI[of _ o1] exI[of _ "[YtDlpCall url o2, SpawnCall bin args]"])
           (simp add: quiet_audio quiet_spawn)
    qed
  qed
qed

lemma downloadHighQualityMerged_calls:
  "\<exists>o1 rest. opt_format o1 = videoFormat cfg \<and>
     calls (snd (downloadHighQualityMerged E cfg url out w)) = calls w @ YtDlpCall url o1 # rest \<and>
     list_all (quiet cfg) rest"
proof -
  have "calls (snd (downloadHighQualityMerged E cfg url out w))
      = calls (snd (highQualityTry E cfg url out (videoPrefix E out w) (audioPrefix E out w) w))"
    by (simp add: downloadHighQualityMerged_def Let_def cleanupByPrefix_calls split: prod.splits)
  with highQualityTry_calls[of cfg E url out "videoPrefix E out w" "audioPrefix E out w" w]
  show ?thesis by simp
qed

lemma runAndResolveFile_world: "snd (runAndResolveFile f url out w) = snd (f url out w)"
  by (simp add: runAndResolveFile_def Let_def split: prod.splits sum.splits option.splits)

lemma downloadProgressiveFallback_calls:
  "\<exists>options. opt_format options = progressiveFormat cfg \<and>
     calls (snd (downloadProgressiveFallback E cfg url out w)) = calls w @ [YtDlpCall url options]"
  by (simp add: downloadProgressiveFallback_def ytDlp_calls)

lemma count_quiet:
  "list_all (quiet cfg) rest \<Longrightarrow>
     filter (isProgressiveAttempt cfg) rest = [] \<and> filter (isHighQualityAttempt cfg) rest = [] \<and>
     list_all isToolCall rest"
  by (induction rest) (simp_all add: quiet_def)

lemma includes_str_iff: "includes_str s p \<longleftrightarrow> (\<exists>a b. s = a @ p @ b)"
proof (induction s)
  case Nil
  show ?case by auto
next
  case (Cons c cs)
  have sw: "startsWith (c # cs) p \<longleftrightarrow> (\<exists>b. c # cs = p @ b)"
    unfolding startsWith_def by (metis append_eq_conv_conj append_take_drop_id)
  show ?case
  proof
    assume "includes_str (c # cs) p"
    then consider "startsWith (c # cs) p" | "includes_str cs p" by auto
    then show "\<exists>a b. c # cs = a @ p @ b"
    proof cases
      case 1
      with sw obtain b where "c # cs = [] @ p @ b" by auto
      then show ?thesis by blast
    next
      case 2
      with Cons.IH obtain a b where "cs = a @ p @ b" by blast
      then have "c # cs = (c # a) @ p @ b" by simp
      then show ?thesis by blast
    qed
  next
    assume "\<exists>a b. c # cs = a @ p @ b"
    then obtain a b where ab: "c # cs = a @ p @ b" by blast
    show "includes_str (c # cs) p"
    proof (cases a)
      case Nil
      with ab have "\<exists>b. c # cs = p @ b" by auto
      with sw have "startsWith (c # cs) p" by simp
      then show ?thesis by simp
    next
      case (Cons x a')
      with ab have "cs = a' @ p @ b" by simp
      with Cons.IH show ?thesis by auto
    qed
  qed
qed

text \<open>
  Claim C1. Let the high-quality path, with the resolution of its file, fail with an
  error. Then \<^verbatim>\<open>downloadVideo\<close> calls the downloader with the progressive format exactly
  once if the text of the error, in lower case, contains \<^verbatim>\<open>ffmpeg\<close>,
  \<^verbatim>\<open>intermediate stream files\<close> or \<^verbatim>\<open>stream output was not found\<close>, and its outcome is
  then that of the progressive path; otherwise it never calls it, and the error and the
  world are returned as the high-quality path left them. In both cases the downloader is
  called with the video-only format exactly once: the high-quality path is not attempted
  again. The text of the error is its \<^verbatim>\<open>stderr\<close> when that is a non-empty string,
  otherwise its \<^verbatim>\<open>message\<close> when that is not empty.
\<close>

theorem fallback_iff_merge_issue:
  assumes hq: "runAndResolveFile (downloadHighQualityMerged E cfg) url outputPath w = (Inl error, w1)"
  shows
   "length (filter (isProgressiveAttempt cfg)
              (newCalls w (snd (downloadVideo E cfg url outputPath w))))
       = (if looksLikeMergeIssue error then 1 else 0) \<and>
    length (filter (isHighQualityAttempt cfg)
              (newCalls w (snd (downloadVideo E cfg url outputPath w)))) = 1 \<and>
    (\<not> looksLikeMergeIssue error \<longrightarrow> downloadVideo E cfg url outputPath w = (Inl error, w1)) \<and>
    (looksLikeMergeIssue error \<longrightarrow>
       downloadVideo E cfg url outputPath w =
         (case runAndResolveFile (downloadProgressiveFallback E cfg) url outputPath w1 of
            (Inl e, w2) \<Rightarrow> (Inl e, w2)
          | (Inr filePath, w2) \<Rightarrow> (Inr (filePath, True), w2))) \<and>
    looksLikeMergeIssue error =
       (includes_str (toLowerCase (errorText error)) ''ffmpeg'' \<or>
        includes_str (toLowerCase (errorText error)) ''intermediate stream files'' \<or>
        includes_str (toLowerCase (errorText error)) ''stream output was not found'') \<and>
    (\<forall>s. err_stderr error = Some s \<and> s \<noteq> [] \<longrightarrow> errorText error = s) \<and>
    ((err_stderr error = None \<or> err_stderr error = Some []) \<and> err_message error \<noteq> [] \<longrightarrow>
       errorText error = err_message error)"
proof -
  let ?w' = "snd (downloadVideo E cfg url outputPath w)"
  have w1: "w1 = snd (downloadHighQualityMerged E cfg url outputPath w)"
    using hq runAndResolveFile_world[of "downloadHighQualityMerged E cfg" url outputPath w] by simp
  from downloadHighQualityMerged_calls[of cfg E url outputPath w] w1
  obtain o1 rest where hqc: "opt_format o1 = videoFormat cfg"
      "calls w1 = calls w @ YtDlpCall url o1 # rest" "list_all (quiet cfg) rest"
    by auto
  note q = count_quiet[OF hqc(3)]
  have hq1: "isHighQualityAttempt cfg (YtDlpCall url o1)" "\<not> isProgressiveAttempt cfg (YtDlpCall url o1)"
    using hqc(1) formats_distinct(1)[of cfg]
    by (simp_all add: isHighQualityAttempt_def isProgressiveAttempt_def)
  have unfold_no: "\<not> looksLikeMergeIssue error \<Longrightarrow> downloadVideo E cfg url outputPath w = (Inl error, w1)"
    using hq by (simp add: downloadVideo_def)
  have unfold_yes: "looksLikeMergeIssue error \<Longrightarrow>
       downloadVideo E cfg url outputPath w =
         (case runAndResolveFile (downloadProgressiveFallback E cfg) url outputPath w1 of
            (Inl e, w2) \<Rightarrow> (Inl e, w2)
          | (Inr filePath, w2) \<Rightarrow> (Inr (filePath, True), w2))"
    using hq by (simp add: downloadVideo_def)
  have counts: "length (filter (isProgressiveAttempt cfg) (newCalls w ?w'))
       = (if looksLikeMergeIssue error then 1 else 0) \<and>
     length (filter (isHighQualityAttempt cfg) (newCalls w ?w')) = 1"
  proof (cases "looksLikeMergeIssue error")
    case False
    then have "?w' = w1" by (simp add: unfold_no)
    then have "newCalls w ?w' = YtDlpCall url o1 # rest"
      by (simp add: newCalls_def hqc(2))
    with False q hq1 show ?thesis by simp
  next
    case True
    then have "?w' = snd (runAndResolveFile (downloadProgressiveFallback E cfg) url outputPath w1)"
      by (simp add: unfold_yes split: prod.splits sum.splits)
    then have w': "?w' = snd (downloadProgressiveFallback E cfg url outputPath w1)"
      by (simp add: runAndResolveFile_world)
    from downloadProgressiveFallback_calls[of cfg E url outputPath w1] w'
    obtain po where po: "opt_format po = progressiveFormat cfg"
      "calls ?w' = calls w1 @ [YtDlpCall url po]" by auto
    have pq: "isProgressiveAttempt cfg (YtDlpCall url po)" "\<not> isHighQualityAttempt cfg (YtDlpCall url po)"
      using po(1) formats_distinct(1)[of cfg]
      by (simp_all add: isHighQualityAttempt_def isProgressiveAttempt_def)
    have "newCalls w ?w' = YtDlpCall url o1 # rest @ [YtDlpCall url po]"
      by (simp add: newCalls_def po(2) hqc(2))
    with True q hq1 pq show ?thesis by simp
  qed
  have text1: "\<forall>s. err_stderr error = Some s \<and> s \<noteq> [] \<longrightarrow> errorText error = s"
    by (simp add: errorText_def)
  have text2: "(err_stderr error = None \<or> err_stderr error = Some []) \<and> err_message error \<noteq> [] \<longrightarrow>
       errorText error = err_message error"
    by (auto simp: errorText_def)
  have marks: "looksLikeMergeIssue error =
       (includes_str (toLowerCase (errorText error)) ''ffmpeg'' \<or>
        includes_str (toLowerCase (errorText error)) ''intermediate stream files'' \<or>
        includes_str (toLowerCase (errorText error)) ''stream output was not found'')"
    by (simp add: looksLikeMergeIssue_def Let_def)
  from counts unfold_no unfold_yes marks text1 text2 show ?thesis by blast
qed

lemmas orch_defs = runAndResolveFile_def downloadVideo_def downloadProgressiveFallback_def
  looksLikeMergeIssue_def errorText_def scanMatches_def newCalls_def isProgressiveAttempt_def
  isHighQualityAttempt_def orElse_def

theorem fallback_iff_merge_issue_witness:
  "fst (runAndResolveFile (downloadHighQualityMerged (encoderMissing 60) exampleConfig) ''u'' jobOutput
          (worldWith [])) = Inl spawnEnoent \<and>
   looksLikeMergeIssue spawnEnoent \<and>
   length (filter (isProgressiveAttempt exampleConfig)
             (newCalls (worldWith [])
                (snd (downloadVideo (encoderMissing 60) exampleConfig ''u'' jobOutput (worldWith [])))))
     = 1 \<and>
   fst (downloadVideo (encoderMissing 60) exampleConfig ''u'' jobOutput (worldWith []))
     = Inr (jobOutput, True) \<and>
   fst (runAndResolveFile (downloadHighQualityMerged offline exampleConfig) ''u'' jobOutput
          (worldWith [])) = Inl networkUnreachable \<and>
   \<not> looksLikeMergeIssue networkUnreachable \<and>
   length (filter (isProgressiveAttempt exampleConfig)
             (newCalls (worldWith [])
                (snd (downloadVideo offline exampleConfig ''u'' jobOutput (worldWith [])))))
     = 0 \<and>
   fst (downloadVideo offline exampleConfig ''u'' jobOutput (worldWith [])) = Inl networkUnreachable"
proof -
  let ?hq = "\<lambda>E. runAndResolveFile (downloadHighQualityMerged E exampleConfig) ''u'' jobOutput (worldWith [])"
  have a1: "fst (?hq (encoderMissing 60)) = Inl spawnEnoent"
    by (simp add: run_defs orch_defs)
  then have h1: "?hq (encoderMissing 60) = (Inl spawnEnoent, snd (?hq (encoderMissing 60)))"
    by (metis prod.collapse)
  have m1: "looksLikeMergeIssue spawnEnoent"
    by (simp add: looksLikeMergeIssue_def errorText_def spawnEnoent_def newError_def toLowerCase_def
        toLowerChar_def startsWith_def)
  note t1 = fallback_iff_merge_issue[OF h1]
  from t1 have "length (filter (isProgressiveAttempt exampleConfig)
             (newCalls (worldWith [])
                (snd (downloadVideo (encoderMissing 60) exampleConfig ''u'' jobOutput (worldWith [])))))
     = (if looksLikeMergeIssue spawnEnoent then 1 else 0)"
    by (rule conjunct1)
  with m1 have c1: "length (filter (isProgressiveAttempt exampleConfig)
             (newCalls (worldWith [])
                (snd (downloadVideo (encoderMissing 60) exampleConfig ''u'' jobOutput (worldWith [])))))
     = 1"
    by (simp only: if_True)
  have r1: "fst (downloadVideo (encoderMissing 60) exampleConfig ''u'' jobOutput (worldWith []))
     = Inr (jobOutput, True)"
    by (simp add: run_defs orch_defs)
  have a2: "fst (?hq offline) = Inl networkUnreachable"
    by (simp add: run_defs orch_defs)
  then have h2: "?hq offline = (Inl networkUnreachable, snd (?hq offline))"
    by (metis prod.collapse)
  have m2: "\<not> looksLikeMergeIssue networkUnreachable"
    by (simp add: looksLikeMergeIssue_def errorText_def networkUnreachable_def toLowerCase_def
        toLowerChar_def startsWith_def)
  note t2 = fallback_iff_merge_issue[OF h2]
  from t2 have "length (filter (isProgressiveAttempt exampleConfig)
             (newCalls (worldWith [])
                (snd (downloadVideo offline exampleConfig ''u'' jobOutput (worldWith [])))))
     = (if looksLikeMergeIssue networkUnreachable then 1 else 0)"
    by (rule conjunct1)
  with m2 have c2: "length (filter (isProgressiveAttempt exampleConfig)
             (newCalls (worldWith [])
                (snd (downloadVideo offline exampleConfig ''u'' jobOutput (worldWith [])))))
     = 0"
    by (simp only: if_False)
  from t2 have "\<not> looksLikeMergeIssue networkUnreachable \<longrightarrow>
      downloadVideo offline exampleConfig ''u'' jobOutput (worldWith [])
        = (Inl networkUnreachable, snd (?hq offline))"
    by (elim conjE)
  with m2 have "downloadVideo offline exampleConfig ''u'' jobOutput (worldWith [])
        = (Inl networkUnreachable, snd (?hq offline))"
    by (elim impE)
  then have r2: "fst (downloadVideo offline exampleConfig ''u'' jobOutput (worldWith []))
     = Inl networkUnreachable"
    by (simp only: fst_conv)
  show ?thesis
    by (rule conjI[OF a1 conjI[OF m1 conjI[OF c1 conjI[OF r1 conjI[OF a2 conjI[OF m2 conjI[OF c2 r2]]]]]]])
qed

subsection \<open>Recognizing a link\<close>

lemmas match_defs = extractYouTubeUrl_def matchHere_def afterScheme_def hostAndId_def
  videoIdAndTail_def litCI_def orElse_def toLowerCase_def toLowerChar_def isWordOrHyphen_def
  isSpace_def char_of_eq_iff

lemma litCI_Some: "litCI p s = Some r \<Longrightarrow> \<exists>a. s = a @ r \<and> toLowerCase a = p"
  by (rule exI[of _ "take (length p) s"]) (auto simp: litCI_def split: if_splits)

lemma videoIdAndTail_Some:
  assumes "videoIdAndTail s = Some r"
  shows "\<exists>ident tail. s = ident @ tail @ r \<and> length ident = 11 \<and> list_all isWordOrHyphen ident \<and>
           list_all (\<lambda>c. \<not> isSpace c) tail \<and> (r = [] \<or> isSpace (hd r))"
proof -
  let ?i = "take 11 s" and ?t = "takeWhile (\<lambda>c. \<not> isSpace c) (drop 11 s)"
  from assms have a: "length ?i = 11" "list_all isWordOrHyphen ?i"
    and r: "r = dropWhile (\<lambda>c. \<not> isSpace c) (drop 11 s)"
    by (auto simp: videoIdAndTail_def split: if_splits)
  have "s = ?i @ ?t @ r" using r by simp
  moreover have "list_all (\<lambda>c. \<not> isSpace c) ?t"
    by (auto simp: list_all_iff dest: set_takeWhileD)
  moreover have "r = [] \<or> isSpace (hd r)"
    using r hd_dropWhile[of "\<lambda>c. \<not> isSpace c" "drop 11 s"] by auto
  ultimately show ?thesis using a by blast
qed

lemma hostAndId_Some:
  assumes "hostAndId s = Some r"
  shows "\<exists>host ident tail. s = host @ ident @ tail @ r \<and>
           toLowerCase host \<in> {''youtube.com/watch?v='', ''youtu.be/''} \<and>
           length ident = 11 \<and> list_all isWordOrHyphen ident \<and>
           list_all (\<lambda>c. \<not> isSpace c) tail \<and> (r = [] \<or> isSpace (hd r))"
proof -
  from assms obtain p s' where p: "p \<in> {''youtube.com/watch?v='', ''youtu.be/''}"
      "litCI p s = Some s'" "videoIdAndTail s' = Some r"
    by (auto simp: hostAndId_def orElse_def Option.bind_eq_Some_conv split: option.splits)
  from litCI_Some[OF p(2)] obtain host where h: "s = host @ s'" "toLowerCase host = p" by blast
  from videoIdAndTail_Some[OF p(3)] obtain ident tail where
    "s' = ident @ tail @ r" "length ident = 11" "list_all isWordOrHyphen ident"
    "list_all (\<lambda>c. \<not> isSpace c) tail" "r = [] \<or> isSpace (hd r)" by blast
  with h p(1) show ?thesis by blast
qed

lemma afterScheme_Some:
  assumes "afterScheme s = Some r"
  shows "\<exists>sep www host ident tail. s = sep @ www @ host @ ident @ tail @ r \<and>
           toLowerCase sep = ''://'' \<and> toLowerCase www \<in> {[], ''www.''} \<and>
           toLowerCase host \<in> {''youtube.com/watch?v='', ''youtu.be/''} \<and>
           length ident = 11 \<and> list_all isWordOrHyphen ident \<and>
           list_all (\<lambda>c. \<not> isSpace c) tail \<and> (r = [] \<or> isSpace (hd r))"
proof -
  from assms obtain s1 where s1: "litCI ''://'' s = Some s1"
      "orElse (Option.bind (litCI ''www.'' s1) hostAndId) (hostAndId s1) = Some r"
    by (auto simp: afterScheme_def Option.bind_eq_Some_conv)
  from litCI_Some[OF s1(1)] obtain sep where sep: "s = sep @ s1" "toLowerCase sep = ''://''" by blast
  from s1(2) consider s2 where "litCI ''www.'' s1 = Some s2" "hostAndId s2 = Some r"
    | "hostAndId s1 = Some r"
    by (auto simp: orElse_def Option.bind_eq_Some_conv split: option.splits)
  then obtain www s2 where w: "s1 = www @ s2" "toLowerCase www \<in> {[], ''www.''}" "hostAndId s2 = Some r"
  proof cases
    case 1
    from litCI_Some[OF 1(1)] obtain www where "s1 = www @ s2" "toLowerCase www = ''www.''" by blast
    with 1(2) that show ?thesis by blast
  next
    case 2
    have "s1 = [] @ s1" "toLowerCase [] \<in> {[], ''www.''}" by (simp_all add: toLowerCase_def)
    with 2 that show ?thesis by blast
  qed
  from hostAndId_Some[OF w(3)] obtain host ident tail where
    "s2 = host @ ident @ tail @ r" "toLowerCase host \<in> {''youtube.com/watch?v='', ''youtu.be/''}"
    "length ident = 11" "list_all isWordOrHyphen ident"
    "list_all (\<lambda>c. \<not> isSpace c) tail" "r = [] \<or> isSpace (hd r)" by blast
  with sep w(1,2) show ?thesis by blast
qed

lemma matchHere_Some:
  assumes "matchHere s = Some r"
  shows "\<exists>scheme www host ident tail. s = scheme @ www @ host @ ident @ tail @ r \<and>
           linkParts scheme www host ident tail \<and> (r = [] \<or> isSpace (hd r))"
proof -
  from assms obtain s1 where s1: "litCI ''http'' s = Some s1"
      "orElse (Option.bind (litCI ''s'' s1) afterScheme) (afterScheme s1) = Some r"
    by (auto simp: matchHere_def Option.bind_eq_Some_conv)
  from litCI_Some[OF s1(1)] obtain h where h: "s = h @ s1" "toLowerCase h = ''http''" by blast
  from s1(2) consider s2 where "litCI ''s'' s1 = Some s2" "afterScheme s2 = Some r"
    | "afterScheme s1 = Some r"
    by (auto simp: orElse_def Option.bind_eq_Some_conv split: option.splits)
  then obtain sx s2 where w: "s1 = sx @ s2" "toLowerCase sx \<in> {[], ''s''}" "afterScheme s2 = Some r"
  proof cases
    case 1
    from litCI_Some[OF 1(1)] obtain sx where "s1 = sx @ s2" "toLowerCase sx = ''s''" by blast
    with 1(2) that show ?thesis by blast
  next
    case 2
    have "s1 = [] @ s1" "toLowerCase [] \<in> {[], ''s''}" by (simp_all add: toLowerCase_def)
    with 2 that show ?thesis by blast
  qed
  from afterScheme_Some[OF w(3)] obtain sep www host ident tail where p:
    "s2 = sep @ www @ host @ ident @ tail @ r" "toLowerCase sep = ''://''"
    "toLowerCase www \<in> {[], ''www.''}"
    "toLowerCase host \<in> {''youtube.com/watch?v='', ''youtu.be/''}"
    "length ident = 11" "list_all isWordOrHyphen ident"
    "list_all (\<lambda>c. \<not> isSpace c) tail" "r = [] \<or> isSpace (hd r)" by blast
  have "toLowerCase (h @ sx @ sep) \<in> {''http://'', ''https://''}"
    using h(2) w(2) p(2) by (auto simp: toLowerCase_def)
  moreover have "s = (h @ sx @ sep) @ www @ host @ ident @ tail @ r"
    using h(1) w(1) p(1) by simp
  ultimately show ?thesis using p(3-8) unfolding linkParts_def by blast
qed

lemma matchFrom_Some:
  "matchFrom t = Some u \<Longrightarrow> \<exists>pre post. t = pre @ u @ post \<and> matchHere (u @ post) = Some post"
proof (induction t)
  case Nil
  then show ?case by simp
next
  case (Cons c cs)
  show ?case
  proof (cases "matchHere (c # cs)")
    case None
    with Cons.prems have "matchFrom cs = Some u" by simp
    from Cons.IH[OF this] obtain pre post where "cs = pre @ u @ post" "matchHere (u @ post) = Some post"
      by blast
    then have "c # cs = (c # pre) @ u @ post" by simp
    with \<open>matchHere (u @ post) = Some post\<close> show ?thesis by blast
  next
    case (Some rest)
    from matchHere_Some[OF Some] obtain m where m: "c # cs = m @ rest"
      by (metis append.assoc)
    from Cons.prems Some have "u = take (length (c # cs) - length rest) (c # cs)" by simp
    with m have "u = m" by simp
    with m Some have "c # cs = [] @ u @ rest" "matchHere (u @ rest) = Some rest" by simp_all
    then show ?thesis by blast
  qed
qed

text \<open>
  Claim C10, as amended. \<^verbatim>\<open>extractYouTubeUrl\<close> returns a link only when the text contains,
  without regard to case, \<^verbatim>\<open>http://\<close> or \<^verbatim>\<open>https://\<close>, an optional \<^verbatim>\<open>www.\<close>,
  \<^verbatim>\<open>youtube.com/watch?v=\<close> or \<^verbatim>\<open>youtu.be/\<close> and then at least eleven letters, digits,
  underscores or hyphens; the link returned is that part of the text with everything that
  follows up to the next white space or the end of the text. For \<^verbatim>\<open>null\<close>, for the
  empty text, for a \<^verbatim>\<open>youtube.com/shorts/\<close> link and for a \<^verbatim>\<open>youtu.be\<close> link with ten such
  characters it returns \<^verbatim>\<open>null\<close>.
\<close>

theorem extracted_link_shape:
  "(extractYouTubeUrl text = Some u \<longrightarrow>
      (\<exists>t pre post scheme www host ident tail.
          text = Some t \<and> t = pre @ u @ post \<and> u = scheme @ www @ host @ ident @ tail \<and>
          linkParts scheme www host ident tail \<and> (post = [] \<or> isSpace (hd post)))) \<and>
   extractYouTubeUrl None = None \<and>
   extractYouTubeUrl (Some []) = None \<and>
   extractYouTubeUrl (Some ''https://www.youtube.com/shorts/dQw4w9WgXcQ'') = None \<and>
   extractYouTubeUrl (Some ''https://youtu.be/dQw4w9WgXc'') = None"
proof -
  have shape: "extractYouTubeUrl text = Some u \<longrightarrow>
      (\<exists>t pre post scheme www host ident tail.
          text = Some t \<and> t = pre @ u @ post \<and> u = scheme @ www @ host @ ident @ tail \<and>
          linkParts scheme www host ident tail \<and> (post = [] \<or> isSpace (hd post)))"
  proof
    assume a: "extractYouTubeUrl text = Some u"
    then obtain t where t: "text = Some t" "matchFrom t = Some u"
      by (auto simp: extractYouTubeUrl_def split: option.splits if_splits)
    from matchFrom_Some[OF t(2)] obtain pre post where
      pp: "t = pre @ u @ post" "matchHere (u @ post) = Some post" by blast
    from matchHere_Some[OF pp(2)] obtain scheme www host ident tail where
      m: "u @ post = scheme @ www @ host @ ident @ tail @ post"
         "linkParts scheme www host ident tail" "post = [] \<or> isSpace (hd post)" by blast
    from m(1) have "u = scheme @ www @ host @ ident @ tail" by simp
    with t(1) pp(1) m(2,3)
    show "\<exists>t pre post scheme www host ident tail.
          text = Some t \<and> t = pre @ u @ post \<and> u = scheme @ www @ host @ ident @ tail \<and>
          linkParts scheme www host ident tail \<and> (post = [] \<or> isSpace (hd post))"
      by blast
  qed
  have e1: "extractYouTubeUrl None = None" and e2: "extractYouTubeUrl (Some []) = None"
    by (simp_all add: extractYouTubeUrl_def)
  have e3: "extractYouTubeUrl (Some ''https://www.youtube.com/shorts/dQw4w9WgXcQ'') = None"
    by (simp add: match_defs)
  have e4: "extractYouTubeUrl (Some ''https://youtu.be/dQw4w9WgXc'') = None"
    by (simp add: match_defs)
  show ?thesis
    by (rule conjI[OF shape conjI[OF e1 conjI[OF e2 conjI[OF e3 e4]]]])
qed

theorem extracted_link_shape_witness:
  "extractYouTubeUrl (Some ''see HTTPS://WWW.YouTube.com/watch?v=dQw4w9WgXcQ&t=1 now'')
     = Some ''HTTPS://WWW.YouTube.com/watch?v=dQw4w9WgXcQ&t=1'' \<and>
   (\<exists>t pre post scheme www host ident tail.
      Some ''see HTTPS://WWW.YouTube.com/watch?v=dQw4w9WgXcQ&t=1 now'' = Some t \<and>
      t = pre @ ''HTTPS://WWW.YouTube.com/watch?v=dQw4w9WgXcQ&t=1'' @ post \<and>
      ''HTTPS://WWW.YouTube.com/watch?v=dQw4w9WgXcQ&t=1'' = scheme @ www @ host @ ident @ tail \<and>
      linkParts scheme www host ident tail \<and> (post = [] \<or> isSpace (hd post)))"
proof -
  have a: "extractYouTubeUrl (Some ''see HTTPS://WWW.YouTube.com/watch?v=dQw4w9WgXcQ&t=1 now'')
     = Some ''HTTPS://WWW.YouTube.com/watch?v=dQw4w9WgXcQ&t=1''"
    by (simp add: match_defs)
  from extracted_link_shape[of "Some ''see HTTPS://WWW.YouTube.com/watch?v=dQw4w9WgXcQ&t=1 now''"
      "''HTTPS://WWW.YouTube.com/watch?v=dQw4w9WgXcQ&t=1''"]
  have "extractYouTubeUrl (Some ''see HTTPS://WWW.YouTube.com/watch?v=dQw4w9WgXcQ&t=1 now'')
     = Some ''HTTPS://WWW.YouTube.com/watch?v=dQw4w9WgXcQ&t=1'' \<longrightarrow>
   (\<exists>t pre post scheme www host ident tail.
      Some ''see HTTPS://WWW.YouTube.com/watch?v=dQw4w9WgXcQ&t=1 now'' = Some t \<and>
      t = pre @ ''HTTPS://WWW.YouTube.com/watch?v=dQw4w9WgXcQ&t=1'' @ post \<and>
      ''HTTPS://WWW.YouTube.com/watch?v=dQw4w9WgXcQ&t=1'' = scheme @ www @ host @ ident @ tail \<and>
      linkParts scheme www host ident tail \<and> (post = [] \<or> isSpace (hd post)))"
    by (rule conjunct1)
  from this a have b: "\<exists>t pre post scheme www host ident tail.
      Some ''see HTTPS://WWW.YouTube.com/watch?v=dQw4w9WgXcQ&t=1 now'' = Some t \<and>
      t = pre @ ''HTTPS://WWW.YouTube.com/watch?v=dQw4w9WgXcQ&t=1'' @ post \<and>
      ''HTTPS://WWW.YouTube.com/watch?v=dQw4w9WgXcQ&t=1'' = scheme @ www @ host @ ident @ tail \<and>
      linkParts scheme www host ident tail \<and> (post = [] \<or> isSpace (hd post))"
    by (rule mp)
  show ?thesis by (rule conjI[OF a b])
qed

text \<open>
  The claim as stated fails on an id of twelve characters: the text holds no link with an
  id of exactly eleven, and a link is returned.
\<close>

theorem longer_id_counterexample:
  "extractYouTubeUrl (Some ''https://youtu.be/abcdefghijkl'') = Some ''https://youtu.be/abcdefghijkl'' \<and>
   \<not> claimedLink ''https://youtu.be/abcdefghijkl'' \<and>
   claimedLink ''https://youtu.be/abcdefghijk''"
  by (simp add: match_defs claimedLinkAt_def)

text \<open>
  Claim C8. From the text \<^verbatim>\<open>check this out https://youtu.be/dQw4w9WgXcQ?t=5 thanks\<close> the
  link \<^verbatim>\<open>https://youtu.be/dQw4w9WgXcQ?t=5\<close> is extracted. For a message whose text holds
  no recognized link the handler returns at once: the world is as before, with no call
  made and no file touched.
\<close>

theorem link_extracted_or_message_ignored:
  "extractYouTubeUrl (Some ''check this out https://youtu.be/dQw4w9WgXcQ?t=5 thanks'')
     = Some ''https://youtu.be/dQw4w9WgXcQ?t=5'' \<and>
   (extractYouTubeUrl (Some (case msg_text msg of None \<Rightarrow> [] | Some t \<Rightarrow> t)) = None \<longrightarrow>
      onMessage E cfg msg w = (Inr (), w))"
proof -
  have a: "extractYouTubeUrl (Some ''check this out https://youtu.be/dQw4w9WgXcQ?t=5 thanks'')
     = Some ''https://youtu.be/dQw4w9WgXcQ?t=5''"
    by (simp add: match_defs)
  have b: "extractYouTubeUrl (Some (case msg_text msg of None \<Rightarrow> [] | Some t \<Rightarrow> t)) = None \<longrightarrow>
      onMessage E cfg msg w = (Inr (), w)"
    by (simp add: onMessage_def Let_def)
  show ?thesis by (rule conjI[OF a b])
qed

theorem link_extracted_or_message_ignored_witness:
  "extractYouTubeUrl (Some ''good morning everyone'') = None \<and>
   onMessage offline exampleConfig
     \<lparr>msg_chat_id = 7, msg_message_id = 2, msg_text = Some ''good morning everyone''\<rparr> (worldWith [])
     = (Inr (), worldWith []) \<and>
   onMessage offline exampleConfig
     \<lparr>msg_chat_id = 7, msg_message_id = 3, msg_text = None\<rparr> (worldWith [])
     = (Inr (), worldWith [])"
proof -
  have a: "extractYouTubeUrl (Some ''good morning everyone'') = None"
    by (simp add: match_defs)
  have a': "extractYouTubeUrl (Some []) = None"
    by (simp add: extractYouTubeUrl_def)
  from link_extracted_or_message_ignored[of
      "\<lparr>msg_chat_id = 7, msg_message_id = 2, msg_text = Some ''good morning everyone''\<rparr>"
      offline exampleConfig "worldWith []"] a
  have b: "onMessage offline exampleConfig
     \<lparr>msg_chat_id = 7, msg_message_id = 2, msg_text = Some ''good morning everyone''\<rparr> (worldWith [])
     = (Inr (), worldWith [])"
    by simp
  from link_extracted_or_message_ignored[of
      "\<lparr>msg_chat_id = 7, msg_message_id = 3, msg_text = None\<rparr>"
      offline exampleConfig "worldWith []"] a'
  have c: "onMessage offline exampleConfig
     \<lparr>msg_chat_id = 7, msg_message_id = 3, msg_text = None\<rparr> (worldWith [])
     = (Inr (), worldWith [])"
    by simp
  show ?thesis by (rule conjI[OF a conjI[OF b c]])
qed

subsection \<open>The request handler\<close>






















end
